theory Spec2Isabelle
  imports Main "HOL-Library.Multiset"
begin

section \<open>JavaScript strings and the name normalizer\<close>

text \<open>
  The three components (\<^verbatim>\<open>SankeyDiagram.vue\<close>, \<^verbatim>\<open>MedalHeatmap.vue\<close>,
  \<^verbatim>\<open>AthletesMap.vue\<close>) process rows of CSV tables. A JavaScript string is a sequence
  of UTF-16 code units. \<^verbatim>\<open>normalizeName\<close> calls three built-in functions on it:
  \<^verbatim>\<open>trim\<close>, which strips the white space and line terminators at both ends,
  \<^verbatim>\<open>split(/\s+/)\<close>, which cuts at every maximal run of the same class of code units
  (and yields the whole string, also the empty one, when there is no such run), and
  \<^verbatim>\<open>toLowerCase\<close>, which maps a whole string to a string.

  \<open>normalizeName_with\<close> is the function with the class \<open>ws\<close>, the lower-casing \<open>lc\<close>
  and the space \<open>sp\<close> of the template literal as parameters, over any type of code units:
  what is proved of it for every \<open>ws\<close> and \<open>lc\<close> holds of JavaScript's own class and
  lower-casing, on every string.
\<close>

definition trim_with :: "('c \<Rightarrow> bool) \<Rightarrow> 'c list \<Rightarrow> 'c list" where
  "trim_with ws s = rev (dropWhile ws (rev (dropWhile ws s)))"

function split_with :: "('c \<Rightarrow> bool) \<Rightarrow> 'c list \<Rightarrow> 'c list list" where
  "split_with ws s =
     (if dropWhile (\<lambda>c. \<not> ws c) s = [] then [s]
      else takeWhile (\<lambda>c. \<not> ws c) s
             # split_with ws (dropWhile ws (dropWhile (\<lambda>c. \<not> ws c) s)))"
  by pat_completeness auto
termination
proof (relation "measure (\<lambda>(ws, s). length s)")
  fix ws :: "'c \<Rightarrow> bool" and s :: "'c list"
  assume ne: "dropWhile (\<lambda>c. \<not> ws c) s \<noteq> []"
  let ?r = "dropWhile (\<lambda>c. \<not> ws c) s"
  from ne obtain w r where r: "?r = w # r" by (cases ?r) auto
  then have "ws w" using hd_dropWhile [of "\<lambda>c. \<not> ws c" s] ne by auto
  then have "length (dropWhile ws ?r) \<le> length r"
    using r by (simp add: length_dropWhile_le)
  moreover have "length ?r \<le> length s" by (rule length_dropWhile_le)
  ultimately show "((ws, dropWhile ws ?r), (ws, s)) \<in> measure (\<lambda>(ws, s). length s)"
    using r by simp
qed simp

declare split_with.simps [simp del]

definition normalizeName_with ::
  "('c \<Rightarrow> bool) \<Rightarrow> ('c list \<Rightarrow> 'c list) \<Rightarrow> 'c \<Rightarrow> 'c list \<Rightarrow> bool \<Rightarrow> 'c list" where
  "normalizeName_with ws lc sp name reversed =
     (let parts = split_with ws (trim_with ws name) in
      if length parts < 2 then lc name
      else if reversed then lc (parts ! 1 @ [sp] @ parts ! 0)
      else lc (parts ! 0 @ [sp] @ parts ! 1))"

text \<open>
  The rows of the tables are modelled over the code units below 256: a \<^typ>\<open>char\<close> is such
  a code unit (the ISO 8859-1 range of Unicode), and a code unit from 256 up is not a value
  of the type. On this range the built-in functions are the following. The white space and
  line terminators below 256 are U+0009 to U+000D, U+0020 and U+00A0. \<^verbatim>\<open>toLowerCase\<close>
  works code unit by code unit there: it adds 32 to the capitals U+0041 to U+005A, U+00C0 to
  U+00D6 and U+00D8 to U+00DE (which sets the bit of weight 32, clear in all of them) and
  leaves every other code unit below 256 as it is.
\<close>

definition is_space :: "char \<Rightarrow> bool" where
  "is_space c = ((of_char c :: nat) \<in> set [0x09, 0x0A, 0x0B, 0x0C, 0x0D, 0x20, 0xA0])"

definition is_upper :: "char \<Rightarrow> bool" where
  "is_upper c =
     (let n = (of_char c :: nat) in
      (0x41 \<le> n \<and> n \<le> 0x5A) \<or> (0xC0 \<le> n \<and> n \<le> 0xD6) \<or> (0xD8 \<le> n \<and> n \<le> 0xDE))"

fun set_bit5 :: "char \<Rightarrow> char" where
  "set_bit5 (Char b0 b1 b2 b3 b4 b5 b6 b7) = Char b0 b1 b2 b3 b4 True b6 b7"

definition lower_char :: "char \<Rightarrow> char" where
  "lower_char c = (if is_upper c then set_bit5 c else c)"

definition toLowerCase :: "string \<Rightarrow> string" where
  "toLowerCase s = map lower_char s"

definition normalizeName :: "string \<Rightarrow> bool \<Rightarrow> string" where
  "normalizeName name reversed =
     normalizeName_with is_space toLowerCase (CHR '' '') name reversed"

section \<open>Rows, the name index and the join\<close>

text \<open>
  \<^verbatim>\<open>d3.csv\<close> delivers one object per line of a table, every column a string. A row is
  a map from column names to strings; a column the table does not have reads as
  \<^verbatim>\<open>undefined\<close>, here \<open>None\<close>. A value is falsy when it is \<^verbatim>\<open>undefined\<close> or the
  empty string.
\<close>

type_synonym row = "string \<rightharpoonup> string"

definition truthy :: "string option \<Rightarrow> bool" where
  "truthy v = (case v of None \<Rightarrow> False | Some s \<Rightarrow> s \<noteq> [])"

text \<open>
  The joined records. The heat map joins to \<^verbatim>\<open>{country, discipline}\<close>, the Sankey
  diagram to \<^verbatim>\<open>{country, discipline, medal}\<close>, and a heat-map cell is
  \<^verbatim>\<open>{country, discipline, value}\<close>: the two larger shapes extend the first one, so the
  accessors \<open>country\<close> and \<open>discipline\<close> read all three, as the structurally typed source
  does.
\<close>

record joined =
  country :: string
  discipline :: string

record joined_medal = joined +
  medal :: string

record HeatmapCell = joined +
  cell_value :: nat

record SankeyLink =
  source :: string
  target :: string
  link_value :: nat

text \<open>
  \<^verbatim>\<open>nameToCountry\<close> (the same statements in both components): a \<^verbatim>\<open>Map\<close> filled by
  \<^verbatim>\<open>forEach\<close> over the medallists, skipping a row whose name or country is falsy;
  \<^verbatim>\<open>Map.set\<close> replaces the value of a key already present.
\<close>

definition nameToCountry :: "row list \<Rightarrow> (string \<rightharpoonup> string)" where
  "nameToCountry medallists =
     fold (\<lambda>d m.
        if \<not> truthy (d ''name'') \<or> \<not> truthy (d ''country'') then m
        else m(normalizeName (the (d ''name'')) True \<mapsto> the (d ''country'')))
      medallists Map.empty"

text \<open>The callback of \<^verbatim>\<open>medals.map\<close> in \<^verbatim>\<open>SankeyDiagram.vue\<close>; \<open>None\<close> is its \<^verbatim>\<open>null\<close>.\<close>

definition sankey_join_row :: "(string \<rightharpoonup> string) \<Rightarrow> row \<Rightarrow> joined_medal option" where
  "sankey_join_row idx d =
     (if \<not> truthy (d ''name'') \<or> \<not> truthy (d ''discipline'') \<or> \<not> truthy (d ''medal_type'')
      then None
      else
        let key = normalizeName (the (d ''name'')) False;
            c = idx key
        in if \<not> truthy c then None
           else Some \<lparr>country = the c, discipline = the (d ''discipline''),
                      medal = the (d ''medal_type'')\<rparr>)"

definition sankey_joined :: "row list \<Rightarrow> row list \<Rightarrow> joined_medal list" where
  "sankey_joined medallists medals =
     map the (filter (\<lambda>d. d \<noteq> None) (map (sankey_join_row (nameToCountry medallists)) medals))"

text \<open>The callback of \<^verbatim>\<open>medals.map\<close> in \<^verbatim>\<open>MedalHeatmap.vue\<close>: it does not ask for a medal type.\<close>

definition heatmap_join_row :: "(string \<rightharpoonup> string) \<Rightarrow> row \<Rightarrow> joined option" where
  "heatmap_join_row idx d =
     (if \<not> truthy (d ''name'') \<or> \<not> truthy (d ''discipline'') then None
      else
        let normalized = normalizeName (the (d ''name'')) False;
            c = idx normalized
        in if \<not> truthy c then None
           else Some \<lparr>country = the c, discipline = the (d ''discipline'')\<rparr>)"

definition heatmap_joined :: "row list \<Rightarrow> row list \<Rightarrow> joined list" where
  "heatmap_joined medallists medals =
     map the (filter (\<lambda>d. d \<noteq> None) (map (heatmap_join_row (nameToCountry medallists)) medals))"

section \<open>Aggregation and top-K selection\<close>

text \<open>
  Modelled from the spec: \<^verbatim>\<open>d3.rollups\<close> belongs to the d3-array package, which the
  components import and whose code is not part of the repository. By the specification's
  aggregator (section 4.4) and the package's documentation, it groups the values by the key
  function into an insertion-ordered map (a value joins the group of its key, a new key opens
  a group at the end), does the same inside every group for a second key function, reduces
  each innermost group, and returns the entries as arrays of pairs. \<^verbatim>\<open>d3.sum\<close> adds the
  accessor's values.
\<close>

fun group_insert :: "'k \<Rightarrow> 'a \<Rightarrow> ('k \<times> 'a list) list \<Rightarrow> ('k \<times> 'a list) list" where
  "group_insert k v [] = [(k, [v])]"
| "group_insert k v ((k', vs) # g) =
     (if k = k' then (k', vs @ [v]) # g else (k', vs) # group_insert k v g)"

definition groups :: "('a \<Rightarrow> 'k) \<Rightarrow> 'a list \<Rightarrow> ('k \<times> 'a list) list" where
  "groups keyof vals = fold (\<lambda>v g. group_insert (keyof v) v g) vals []"

definition rollups :: "('a list \<Rightarrow> 'r) \<Rightarrow> ('a \<Rightarrow> 'k) \<Rightarrow> 'a list \<Rightarrow> ('k \<times> 'r) list" where
  "rollups reduce keyof vals = map (\<lambda>(k, vs). (k, reduce vs)) (groups keyof vals)"

definition rollups2 ::
  "('a list \<Rightarrow> 'r) \<Rightarrow> ('a \<Rightarrow> 'k) \<Rightarrow> ('a \<Rightarrow> 'j) \<Rightarrow> 'a list \<Rightarrow> ('k \<times> ('j \<times> 'r) list) list" where
  "rollups2 reduce key1 key2 vals =
     map (\<lambda>(k, vs). (k, rollups reduce key2 vs)) (groups key1 vals)"

definition d3_sum :: "'a list \<Rightarrow> ('a \<Rightarrow> nat) \<Rightarrow> nat" where
  "d3_sum v f = sum_list (map f v)"

text \<open>
  \<^verbatim>\<open>Array.prototype.sort\<close> with a comparator is a stable sort: an element goes before
  the first element it does not compare greater than. The comparator of all four rankings
  is \<^verbatim>\<open>(a, b) => b[1] - a[1]\<close>; \<open>topK\<close> is the chain
  \<^verbatim>\<open>.sort((a, b) => b[1] - a[1]).slice(0, k).map(d => d[0])\<close> that each ranking applies,
  with \<open>k\<close> 8 or 15.
\<close>

fun insert_by :: "('a \<Rightarrow> 'a \<Rightarrow> int) \<Rightarrow> 'a \<Rightarrow> 'a list \<Rightarrow> 'a list" where
  "insert_by cmp x [] = [x]"
| "insert_by cmp x (y # ys) = (if cmp x y \<le> 0 then x # y # ys else y # insert_by cmp x ys)"

definition array_sort :: "('a \<Rightarrow> 'a \<Rightarrow> int) \<Rightarrow> 'a list \<Rightarrow> 'a list" where
  "array_sort cmp xs = foldr (insert_by cmp) xs []"

definition by_count_desc :: "'k \<times> nat \<Rightarrow> 'k \<times> nat \<Rightarrow> int" where
  "by_count_desc a b = int (snd b) - int (snd a)"

definition topK :: "('k \<times> nat) list \<Rightarrow> nat \<Rightarrow> 'k list" where
  "topK entries k = map fst (take k (array_sort by_count_desc entries))"

section \<open>The Sankey pipeline\<close>

definition sankey_topCountries :: "joined_medal list \<Rightarrow> string list" where
  "sankey_topCountries js = topK (rollups length country js) 8"

definition sankey_topDisciplines :: "joined_medal list \<Rightarrow> string list" where
  "sankey_topDisciplines js = topK (rollups length discipline js) 8"

definition sankey_filtered :: "joined_medal list \<Rightarrow> joined_medal list" where
  "sankey_filtered js =
     filter (\<lambda>d. country d \<in> set (sankey_topCountries js) \<and>
                 discipline d \<in> set (sankey_topDisciplines js)) js"

definition links_of :: "(string \<times> (string \<times> nat) list) list \<Rightarrow> SankeyLink list" where
  "links_of rolled =
     concat (map (\<lambda>(k, inner).
        map (\<lambda>(k2, n). \<lparr>source = k, target = k2, link_value = n\<rparr>) inner) rolled)"

definition countryToDiscipline :: "joined_medal list \<Rightarrow> (string \<times> (string \<times> nat) list) list" where
  "countryToDiscipline filtered = rollups2 length country discipline filtered"

definition disciplineToMedal :: "joined_medal list \<Rightarrow> (string \<times> (string \<times> nat) list) list" where
  "disciplineToMedal filtered = rollups2 length discipline medal filtered"

definition linkMap :: "joined_medal list \<Rightarrow> SankeyLink list" where
  "linkMap filtered = links_of (countryToDiscipline filtered) @ links_of (disciplineToMedal filtered)"

definition nodeNames :: "SankeyLink list \<Rightarrow> string list" where
  "nodeNames ls =
     fold (\<lambda>n acc. if n \<in> set acc then acc else acc @ [n])
       (concat (map (\<lambda>l. [source l, target l]) ls)) []"

definition loadData :: "row list \<Rightarrow> row list \<Rightarrow> string list \<times> SankeyLink list" where
  "loadData medallists medals =
     (let ls = linkMap (sankey_filtered (sankey_joined medallists medals))
      in (nodeNames ls, ls))"

section \<open>The heat-map pipeline\<close>

definition heatmap_cells :: "joined list \<Rightarrow> HeatmapCell list" where
  "heatmap_cells js =
     concat (map (\<lambda>(c, disciplines).
        map (\<lambda>(d, n). \<lparr>country = c, discipline = d, cell_value = n\<rparr>) disciplines)
       (rollups2 length country discipline js))"

definition heatmap_topCountries :: "HeatmapCell list \<Rightarrow> string list" where
  "heatmap_topCountries cells = topK (rollups (\<lambda>v. d3_sum v cell_value) country cells) 15"

definition heatmap_topDisciplines :: "HeatmapCell list \<Rightarrow> string list" where
  "heatmap_topDisciplines cells = topK (rollups (\<lambda>v. d3_sum v cell_value) discipline cells) 8"

definition heatmap_filtered :: "HeatmapCell list \<Rightarrow> HeatmapCell list" where
  "heatmap_filtered cells =
     filter (\<lambda>d. country d \<in> set (heatmap_topCountries cells) \<and>
                 discipline d \<in> set (heatmap_topDisciplines cells)) cells"

definition loadHeatmapData :: "row list \<Rightarrow> row list \<Rightarrow> HeatmapCell list" where
  "loadHeatmapData medallists medals =
     heatmap_filtered (heatmap_cells (heatmap_joined medallists medals))"

section \<open>Notions of the specification\<close>

text \<open>
  The order in which the specification lists groups: every key once, at the place of its
  first occurrence.
\<close>

definition first_seen :: "'a list \<Rightarrow> 'a list" where
  "first_seen ys = rev (remdups (rev ys))"

text \<open>
  The total count of every key, keys in the order \<open>ks\<close>, and the entries of a two-level
  aggregate read as triples (first key, second key, count): what the nested
  \<^verbatim>\<open>forEach\<close> loops of both components walk through.
\<close>

definition totals :: "('a \<Rightarrow> 'k) \<Rightarrow> 'a list \<Rightarrow> 'k list \<Rightarrow> ('k \<times> nat) list" where
  "totals f xs ks = map (\<lambda>k. (k, length (filter (\<lambda>x. f x = k) xs))) ks"

definition triples :: "('k \<times> ('j \<times> 'r) list) list \<Rightarrow> ('k \<times> 'j \<times> 'r) list" where
  "triples rolled = concat (map (\<lambda>(k, inner). map (\<lambda>(j, n). (k, j, n)) inner) rolled)"

section \<open>The country aliaser and the choropleth pipeline\<close>

text \<open>
  \<^verbatim>\<open>COUNTRY_ALIASES\<close> is an object literal, and \<^verbatim>\<open>COUNTRY_ALIASES[raw]\<close> is a property
  read: it finds the literal's own entries and, for a name the literal does not have, the
  members every object inherits from \<^verbatim>\<open>Object.prototype\<close>. An inherited member is a
  function or an object, never a string and never nullish, so \<^verbatim>\<open>??\<close> keeps it. The
  result of the read is therefore a \<open>js_value\<close>: a string, or the inherited member found
  under a name.
\<close>

datatype js_value = Null | Str string | Inherited string

definition COUNTRY_ALIASES :: "(string \<times> string) list" where
  "COUNTRY_ALIASES =
     [(''United States'', ''United States of America''),
      (''USA'', ''United States of America''),
      (''Great Britain'', ''United Kingdom''),
      (''China'', ''China''),
      (''People's Republic of China'', ''China''),
      (''Korea'', ''South Korea''),
      (''Republic of Korea'', ''South Korea''),
      (''DPR Korea'', ''North Korea''),
      (''Chinese Taipei'', ''Taiwan''),
      (''Hong Kong, China'', ''Hong Kong''),
      (''Russian Olympic Committee'', ''Russia''),
      (''Russian Federation'', ''Russia''),
      (''Islamic Republic of Iran'', ''Iran'')]"

definition object_prototype_names :: "string list" where
  "object_prototype_names =
     [''constructor'', ''hasOwnProperty'', ''isPrototypeOf'', ''propertyIsEnumerable'',
      ''toLocaleString'', ''toString'', ''valueOf'', ''__proto__'',
      ''__defineGetter__'', ''__defineSetter__'', ''__lookupGetter__'', ''__lookupSetter__'']"

definition alias_get :: "string \<Rightarrow> js_value option" where
  "alias_get raw =
     (case map_of COUNTRY_ALIASES raw of
        Some canonical \<Rightarrow> Some (Str canonical)
      | None \<Rightarrow> if raw \<in> set object_prototype_names then Some (Inherited raw) else None)"

definition normalizeCountry :: "string option \<Rightarrow> string option \<Rightarrow> js_value" where
  "normalizeCountry country_arg countryLong =
     (let raw = (if truthy countryLong then countryLong else country_arg) in
      if \<not> truthy raw then Null
      else (case alias_get (the raw) of Some v \<Rightarrow> v | None \<Rightarrow> Str (the raw)))"

definition js_truthy :: "js_value \<Rightarrow> bool" where
  "js_truthy v = (case v of Null \<Rightarrow> False | Str s \<Rightarrow> s \<noteq> [] | Inherited _ \<Rightarrow> True)"

text \<open>The callback of \<^verbatim>\<open>data.forEach\<close> in \<^verbatim>\<open>loadAthletes\<close>, and the loop.\<close>

definition count_athlete :: "row \<Rightarrow> (js_value \<rightharpoonup> nat) \<Rightarrow> (js_value \<rightharpoonup> nat)" where
  "count_athlete d counts =
     (let name = normalizeCountry (d ''country'') (d ''country_long'') in
      if \<not> js_truthy name then counts
      else counts(name \<mapsto> (case counts name of None \<Rightarrow> 0 | Some n \<Rightarrow> n) + 1))"

definition loadAthletes :: "row list \<Rightarrow> (js_value \<rightharpoonup> nat)" where
  "loadAthletes data = fold count_athlete data Map.empty"

text \<open>
  The aliaser as the specification words it (section 4.2), to compare with
  \<open>normalizeCountry\<close>: the long label is preferred whenever it is given, \<open>null\<close> comes
  back when neither label is given, a key of the alias table gives its canonical name, and
  any other label comes back unchanged.
\<close>

definition canonicalize_as_stated :: "string option \<Rightarrow> string option \<Rightarrow> js_value" where
  "canonicalize_as_stated primary long =
     (case (case long of Some l \<Rightarrow> Some l | None \<Rightarrow> primary) of
        None \<Rightarrow> Null
      | Some raw \<Rightarrow> (case map_of COUNTRY_ALIASES raw of Some canonical \<Rightarrow> Str canonical
                                                       | None \<Rightarrow> Str raw))"

section \<open>Where the chain can throw\<close>

text \<open>
  Two kinds of expression in the normalize, join, aggregate, top-K chain can raise a
  \<^verbatim>\<open>TypeError\<close>: a method call on \<^verbatim>\<open>undefined\<close> (\<^verbatim>\<open>name.trim()\<close> and
  \<^verbatim>\<open>name.toLowerCase()\<close> inside \<^verbatim>\<open>normalizeName\<close>, whose argument \<^verbatim>\<open>d.name\<close> is
  a column that may be missing), and a property read on \<^verbatim>\<open>null\<close> (\<^verbatim>\<open>d.country\<close> and
  \<^verbatim>\<open>d.discipline\<close> in the key functions, on the elements the join's \<^verbatim>\<open>map\<close>
  produced). Reads of a row's columns, \<^verbatim>\<open>Map.get\<close> and \<^verbatim>\<open>Map.set\<close>, and the array
  methods \<^verbatim>\<open>map\<close>, \<^verbatim>\<open>filter\<close>, \<^verbatim>\<open>sort\<close>, \<^verbatim>\<open>slice\<close> and \<^verbatim>\<open>includes\<close> do not
  throw. The checked versions below are the same statements with both kinds of site written
  as a result \<open>js_error + 'a\<close>; an error ends the load, as the exception would.
\<close>

datatype js_error = TypeError

definition normalizeName_checked :: "string option \<Rightarrow> bool \<Rightarrow> js_error + string" where
  "normalizeName_checked name reversed =
     (case name of None \<Rightarrow> Inl TypeError | Some n \<Rightarrow> Inr (normalizeName n reversed))"

fun nameToCountry_checked ::
  "row list \<Rightarrow> (string \<rightharpoonup> string) \<Rightarrow> js_error + (string \<rightharpoonup> string)" where
  "nameToCountry_checked [] m = Inr m"
| "nameToCountry_checked (d # ds) m =
     (if \<not> truthy (d ''name'') \<or> \<not> truthy (d ''country'') then nameToCountry_checked ds m
      else case normalizeName_checked (d ''name'') True of
             Inl e \<Rightarrow> Inl e
           | Inr key \<Rightarrow> nameToCountry_checked ds (m(key \<mapsto> the (d ''country''))))"

definition sankey_join_row_checked ::
  "(string \<rightharpoonup> string) \<Rightarrow> row \<Rightarrow> js_error + joined_medal option" where
  "sankey_join_row_checked idx d =
     (if \<not> truthy (d ''name'') \<or> \<not> truthy (d ''discipline'') \<or> \<not> truthy (d ''medal_type'')
      then Inr None
      else case normalizeName_checked (d ''name'') False of
             Inl e \<Rightarrow> Inl e
           | Inr key \<Rightarrow>
               let c = idx key
               in if \<not> truthy c then Inr None
                  else Inr (Some \<lparr>country = the c, discipline = the (d ''discipline''),
                                  medal = the (d ''medal_type'')\<rparr>))"

definition heatmap_join_row_checked ::
  "(string \<rightharpoonup> string) \<Rightarrow> row \<Rightarrow> js_error + joined option" where
  "heatmap_join_row_checked idx d =
     (if \<not> truthy (d ''name'') \<or> \<not> truthy (d ''discipline'') then Inr None
      else case normalizeName_checked (d ''name'') False of
             Inl e \<Rightarrow> Inl e
           | Inr normalized \<Rightarrow>
               let c = idx normalized
               in if \<not> truthy c then Inr None
                  else Inr (Some \<lparr>country = the c, discipline = the (d ''discipline'')\<rparr>))"

text \<open>\<^verbatim>\<open>Array.prototype.map\<close> with a callback that may throw: the first error ends it.\<close>

fun map_checked :: "('a \<Rightarrow> js_error + 'b) \<Rightarrow> 'a list \<Rightarrow> js_error + 'b list" where
  "map_checked f [] = Inr []"
| "map_checked f (x # xs) =
     (case f x of
        Inl e \<Rightarrow> Inl e
      | Inr y \<Rightarrow> (case map_checked f xs of Inl e \<Rightarrow> Inl e | Inr ys \<Rightarrow> Inr (y # ys)))"

text \<open>
  The key functions read a property of every element of \<^verbatim>\<open>joined\<close>; on a \<^verbatim>\<open>null\<close>
  element the read throws.
\<close>

fun read_all :: "'a option list \<Rightarrow> js_error + 'a list" where
  "read_all [] = Inr []"
| "read_all (None # xs) = Inl TypeError"
| "read_all (Some x # xs) = (case read_all xs of Inl e \<Rightarrow> Inl e | Inr ys \<Rightarrow> Inr (x # ys))"

definition loadData_checked ::
  "row list \<Rightarrow> row list \<Rightarrow> js_error + (string list \<times> SankeyLink list)" where
  "loadData_checked medallists medals =
     (case nameToCountry_checked medallists Map.empty of
        Inl e \<Rightarrow> Inl e
      | Inr idx \<Rightarrow>
          (case map_checked (sankey_join_row_checked idx) medals of
             Inl e \<Rightarrow> Inl e
           | Inr mapped \<Rightarrow>
               (case read_all (filter (\<lambda>d. d \<noteq> None) mapped) of
                  Inl e \<Rightarrow> Inl e
                | Inr js \<Rightarrow>
                    let ls = linkMap (sankey_filtered js) in Inr (nodeNames ls, ls))))"

definition loadHeatmapData_checked :: "row list \<Rightarrow> row list \<Rightarrow> js_error + HeatmapCell list" where
  "loadHeatmapData_checked medallists medals =
     (case nameToCountry_checked medallists Map.empty of
        Inl e \<Rightarrow> Inl e
      | Inr idx \<Rightarrow>
          (case map_checked (heatmap_join_row_checked idx) medals of
             Inl e \<Rightarrow> Inl e
           | Inr mapped \<Rightarrow>
               (case read_all (filter (\<lambda>d. d \<noteq> None) mapped) of
                  Inl e \<Rightarrow> Inl e
                | Inr js \<Rightarrow> Inr (heatmap_filtered (heatmap_cells js)))))"

section \<open>Name normalizer: properties\<close>

lemma dropWhile_space_prefix:
  "list_all ws pre \<Longrightarrow> dropWhile ws (pre @ xs) = dropWhile ws xs"
  by (simp add: dropWhile_append list_all_iff)

lemma trim_body:
  assumes "list_all ws pre" "list_all ws post"
    and "body = [] \<or> (\<not> ws (hd body) \<and> \<not> ws (last body))"
  shows "trim_with ws (pre @ body @ post) = body"
proof (cases "body = []")
  case True
  have "list_all ws (pre @ post)" using assms(1,2) by simp
  then have "dropWhile ws (pre @ post) = []"
    by (simp only: dropWhile_eq_Nil_conv list_all_iff)
  then have "trim_with ws (pre @ post) = []"
    by (simp only: trim_with_def rev.simps dropWhile.simps)
  with True show ?thesis by simp
next
  case False
  with assms(3) have h: "\<not> ws (hd body)" and l: "\<not> ws (last body)" by auto
  from False h have d1: "dropWhile ws (body @ post) = body @ post"
    by (cases body) auto
  have "rev (body @ post) = rev post @ rev body" by simp
  moreover have "list_all ws (rev post)" using assms(2) by (simp add: list_all_iff)
  ultimately have "dropWhile ws (rev (body @ post)) = dropWhile ws (rev body)"
    by (simp only: dropWhile_space_prefix)
  also have "\<dots> = rev body"
    using False l by (cases "rev body") (auto simp: last_rev hd_rev[symmetric] dest: arg_cong[where f=hd])
  finally show ?thesis
    using assms(1) d1 by (simp add: trim_with_def dropWhile_space_prefix)
qed

lemma split_ws_no_space:
  "\<not> list_ex ws t \<Longrightarrow> split_with ws t = [t]"
  by (subst split_with.simps) (simp add: list_ex_iff)

lemma split_ws_token:
  assumes "\<not> list_ex ws t" "ws w"
  shows "split_with ws (t @ w # xs) = t # split_with ws (dropWhile ws xs)"
proof -
  have d: "dropWhile (\<lambda>c. \<not> ws c) (t @ w # xs) = w # xs"
    using assms by (simp add: dropWhile_append list_ex_iff)
  have t: "takeWhile (\<lambda>c. \<not> ws c) (t @ w # xs) = t"
    using assms by (simp add: takeWhile_append list_ex_iff)
  show ?thesis
    by (subst split_with.simps) (simp add: d t assms(2))
qed

lemma split_ws_two:
  assumes t0: "\<not> list_ex ws t0"
    and sep: "sep \<noteq> []" "list_all ws sep"
    and t1: "t1 \<noteq> []" "\<not> list_ex ws t1"
    and rest: "rest = [] \<or> ws (hd rest)"
  shows "\<exists>more. split_with ws (t0 @ sep @ t1 @ rest) = t0 # t1 # more"
proof -
  from sep obtain w wss where s: "sep = w # wss" "ws w" "list_all ws wss"
    by (cases sep) auto
  have "split_with ws (t0 @ sep @ t1 @ rest) = t0 # split_with ws (dropWhile ws (wss @ t1 @ rest))"
    using split_ws_token [OF t0 s(2), of "wss @ t1 @ rest"] s(1) by simp
  also have "dropWhile ws (wss @ t1 @ rest) = t1 @ rest"
    using s(3) t1 by (cases t1) (auto simp: dropWhile_space_prefix)
  finally have a: "split_with ws (t0 @ sep @ t1 @ rest) = t0 # split_with ws (t1 @ rest)" .
  show ?thesis
  proof (cases rest)
    case Nil
    then show ?thesis using a split_ws_no_space [OF t1(2)] by simp
  next
    case (Cons r rs)
    with rest have "ws r" by simp
    then show ?thesis using a split_ws_token [OF t1(2), of r rs] Cons by simp
  qed
qed

lemma normalizeName_single:
  assumes "list_all ws pre" "list_all ws post" "\<not> list_ex ws t"
  shows "normalizeName_with ws lc sp (pre @ t @ post) reversed = lc (pre @ t @ post)"
proof -
  have "t = [] \<or> (\<not> ws (hd t) \<and> \<not> ws (last t))"
    using assms(3) by (cases t) (auto simp: list_ex_iff)
  then have "trim_with ws (pre @ t @ post) = t" using assms(1,2) by (rule trim_body[rotated 2])
  then show ?thesis
    using split_ws_no_space [OF assms(3)] by (simp add: normalizeName_with_def)
qed

lemma normalizeName_two:
  assumes pre: "list_all ws pre" and post: "list_all ws post"
    and t0: "t0 \<noteq> []" "\<not> list_ex ws t0"
    and sep: "sep \<noteq> []" "list_all ws sep"
    and t1: "t1 \<noteq> []" "\<not> list_ex ws t1"
    and rest: "rest = [] \<or> (ws (hd rest) \<and> \<not> ws (last rest))"
  shows "normalizeName_with ws lc sp (pre @ t0 @ sep @ t1 @ rest @ post) reversed =
           lc (if reversed then t1 @ [sp] @ t0 else t0 @ [sp] @ t1)"
proof -
  let ?body = "t0 @ sep @ t1 @ rest"
  have h: "\<not> ws (hd ?body)" using t0 by (cases t0) (auto simp: list_ex_iff)
  have l: "\<not> ws (last ?body)"
    using t1 rest by (cases "rest = []") (auto simp: list_ex_iff)
  have "trim_with ws (pre @ ?body @ post) = ?body"
    using pre post h l t0(1) by (intro trim_body) auto
  then have tr: "trim_with ws (pre @ t0 @ sep @ t1 @ rest @ post) = ?body" by simp
  from rest have "rest = [] \<or> ws (hd rest)" by auto
  from split_ws_two [OF t0(2) sep t1 this]
  obtain more where "split_with ws ?body = t0 # t1 # more" by blast
  then show ?thesis
    by (simp add: normalizeName_with_def tr)
qed

lemma trim_split:
  "\<exists>pre post. name = pre @ trim_with ws name @ post \<and> list_all ws pre \<and> list_all ws post"
proof -
  let ?s1 = "dropWhile ws name"
  have a: "name = takeWhile ws name @ ?s1" by simp
  have "rev ?s1 = takeWhile ws (rev ?s1) @ dropWhile ws (rev ?s1)" by simp
  then have "?s1 = rev (dropWhile ws (rev ?s1)) @ rev (takeWhile ws (rev ?s1))"
    by (metis rev_append rev_rev_ident)
  then have b: "?s1 = trim_with ws name @ rev (takeWhile ws (rev ?s1))"
    by (simp add: trim_with_def)
  have c: "list_all ws (takeWhile ws name)"
    by (auto simp: list_all_iff dest: set_takeWhileD)
  have d: "list_all ws (rev (takeWhile ws (rev ?s1)))"
    by (auto simp: list_all_iff dest: set_takeWhileD)
  from a b have "name = takeWhile ws name @ trim_with ws name @ rev (takeWhile ws (rev ?s1))"
    by metis
  with c d show ?thesis by (intro exI conjI)
qed

lemma trim_ends:
  "trim_with ws name = [] \<or> (\<not> ws (hd (trim_with ws name)) \<and> \<not> ws (last (trim_with ws name)))"
proof (cases "trim_with ws name = []")
  case True
  then show ?thesis by simp
next
  case False
  let ?s1 = "dropWhile ws name"
  let ?r = "dropWhile ws (rev ?s1)"
  from False have r: "?r \<noteq> []" by (simp add: trim_with_def)
  then have l: "\<not> ws (hd ?r)" by (rule hd_dropWhile)
  have "last (trim_with ws name) = hd ?r" using r by (simp add: trim_with_def last_rev)
  with l have 1: "\<not> ws (last (trim_with ws name))" by simp
  from r have s1: "?s1 \<noteq> []" by (metis dropWhile.simps(1) rev.simps(1))
  then have h: "\<not> ws (hd ?s1)" by (rule hd_dropWhile)
  have "rev ?s1 = takeWhile ws (rev ?s1) @ ?r" by simp
  then have "?s1 = rev ?r @ rev (takeWhile ws (rev ?s1))"
    by (metis rev_append rev_rev_ident)
  then have "hd ?s1 = hd (rev ?r)" using r by (metis hd_append2 rev_is_Nil_conv)
  with h have "\<not> ws (hd (trim_with ws name))" by (simp add: trim_with_def)
  with 1 show ?thesis by simp
qed

lemma split_run:
  "\<exists>a b. xs = a @ b \<and> list_all P a \<and> (b = [] \<or> \<not> P (hd b))"
proof (intro exI conjI)
  show "xs = takeWhile P xs @ dropWhile P xs" by simp
  show "list_all P (takeWhile P xs)" by (auto simp: list_all_iff dest: set_takeWhileD)
  show "dropWhile P xs = [] \<or> \<not> P (hd (dropWhile P xs))"
    using hd_dropWhile [of P xs] by blast
qed

lemma body_shape:
  assumes ne: "body \<noteq> []" and h: "\<not> ws (hd body)" and l: "\<not> ws (last body)"
    and sp: "list_ex ws body"
  shows "\<exists>t0 sep t1 rest. body = t0 @ sep @ t1 @ rest \<and>
      t0 \<noteq> [] \<and> \<not> list_ex ws t0 \<and> sep \<noteq> [] \<and> list_all ws sep \<and>
      t1 \<noteq> [] \<and> \<not> list_ex ws t1 \<and>
      (rest = [] \<or> (ws (hd rest) \<and> \<not> ws (last rest)))"
proof -
  obtain t0 r1 where b1: "body = t0 @ r1" and t0a: "list_all (\<lambda>c. \<not> ws c) t0"
    and r1h: "r1 = [] \<or> ws (hd r1)"
    using split_run [of body "\<lambda>c. \<not> ws c"] by auto
  have t0n: "\<not> list_ex ws t0" using t0a by (simp add: list_all_iff list_ex_iff)
  have r1: "r1 \<noteq> []"
  proof
    assume "r1 = []"
    with b1 have "body = t0" by simp
    with sp t0n show False by simp
  qed
  with r1h have r1s: "ws (hd r1)" by simp
  have t0: "t0 \<noteq> []"
  proof
    assume "t0 = []"
    with b1 have "body = r1" by simp
    with h r1s show False by simp
  qed
  obtain sep r2 where b2: "r1 = sep @ r2" and sepa: "list_all ws sep"
    and r2h: "r2 = [] \<or> \<not> ws (hd r2)"
    using split_run [of r1 ws] by auto
  have sep: "sep \<noteq> []"
  proof
    assume "sep = []"
    with b2 have "r1 = r2" by simp
    with r1 r1s r2h show False by simp
  qed
  have r2: "r2 \<noteq> []"
  proof
    assume "r2 = []"
    with b1 b2 have "body = t0 @ sep" by simp
    with sep have "last body = last sep" by simp
    moreover have "ws (last sep)" using sep sepa by (simp add: list_all_iff)
    ultimately show False using l by simp
  qed
  with r2h have r2n: "\<not> ws (hd r2)" by simp
  obtain t1 rest where b3: "r2 = t1 @ rest" and t1a: "list_all (\<lambda>c. \<not> ws c) t1"
    and resth: "rest = [] \<or> ws (hd rest)"
    using split_run [of r2 "\<lambda>c. \<not> ws c"] by auto
  have t1n: "\<not> list_ex ws t1" using t1a by (simp add: list_all_iff list_ex_iff)
  have t1: "t1 \<noteq> []"
  proof
    assume "t1 = []"
    with b3 have "r2 = rest" by simp
    with r2 r2n resth show False by simp
  qed
  have rest: "rest = [] \<or> (ws (hd rest) \<and> \<not> ws (last rest))"
  proof (cases "rest = []")
    case True
    then show ?thesis by simp
  next
    case False
    from b1 b2 b3 have "body = (t0 @ sep @ t1) @ rest" by simp
    moreover from False have "last ((t0 @ sep @ t1) @ rest) = last rest" by (rule last_appendR)
    ultimately have "last body = last rest" by (simp only:)
    with l resth False show ?thesis by simp
  qed
  from b1 b2 b3 have "body = t0 @ sep @ t1 @ rest" by simp
  with t0 t0n sep sepa t1 t1n rest show ?thesis by (intro exI conjI)
qed

lemma name_shape:
  "(\<exists>pre t post. name = pre @ t @ post \<and>
      list_all ws pre \<and> list_all ws post \<and> \<not> list_ex ws t) \<or>
   (\<exists>pre t0 sep t1 rest post. name = pre @ t0 @ sep @ t1 @ rest @ post \<and>
      list_all ws pre \<and> list_all ws post \<and>
      t0 \<noteq> [] \<and> \<not> list_ex ws t0 \<and> sep \<noteq> [] \<and> list_all ws sep \<and>
      t1 \<noteq> [] \<and> \<not> list_ex ws t1 \<and>
      (rest = [] \<or> (ws (hd rest) \<and> \<not> ws (last rest))))"
proof -
  obtain pre post where n: "name = pre @ trim_with ws name @ post"
    and p: "list_all ws pre" "list_all ws post"
    using trim_split [where name = name and ws = ws] by blast
  show ?thesis
  proof (cases "list_ex ws (trim_with ws name)")
    case False
    with n p have "\<exists>pre t post. name = pre @ t @ post \<and>
      list_all ws pre \<and> list_all ws post \<and> \<not> list_ex ws t"
      by (intro exI conjI)
    then show ?thesis by (rule disjI1)
  next
    case True
    then have ne: "trim_with ws name \<noteq> []" by auto
    with trim_ends [of ws name]
    have "\<not> ws (hd (trim_with ws name))" "\<not> ws (last (trim_with ws name))" by auto
    from body_shape [OF ne this True]
    obtain t0 sep t1 rest where "trim_with ws name = t0 @ sep @ t1 @ rest"
      and c: "t0 \<noteq> []" "\<not> list_ex ws t0" "sep \<noteq> []" "list_all ws sep"
        "t1 \<noteq> []" "\<not> list_ex ws t1"
        "rest = [] \<or> (ws (hd rest) \<and> \<not> ws (last rest))"
      by blast
    with n have "name = pre @ t0 @ sep @ t1 @ rest @ post" by simp
    with p c have "\<exists>pre t0 sep t1 rest post. name = pre @ t0 @ sep @ t1 @ rest @ post \<and>
      list_all ws pre \<and> list_all ws post \<and>
      t0 \<noteq> [] \<and> \<not> list_ex ws t0 \<and> sep \<noteq> [] \<and> list_all ws sep \<and>
      t1 \<noteq> [] \<and> \<not> list_ex ws t1 \<and>
      (rest = [] \<or> (ws (hd rest) \<and> \<not> ws (last rest)))"
      by (intro exI conjI)
    then show ?thesis by (rule disjI2)
  qed
qed

lemma toLowerCase_append: "toLowerCase (a @ b) = toLowerCase a @ toLowerCase b"
  by (simp add: toLowerCase_def)

lemma is_upper_bit5: "is_upper (Char b0 b1 b2 b3 b4 b5 b6 b7) \<Longrightarrow> \<not> b5"
proof -
  have le: "of_bool b \<le> (1::nat)" for b by simp
  assume "is_upper (Char b0 b1 b2 b3 b4 b5 b6 b7)"
  then show ?thesis
    using le [of b0] le [of b1] le [of b2] le [of b3] le [of b4]
    by (cases b6; cases b7) (auto simp: is_upper_def Let_def)
qed

lemma lower_char_code_unit:
  "(of_char (lower_char c) :: nat) = (if is_upper c then of_char c + 32 else of_char c)"
proof (cases c)
  case (Char b0 b1 b2 b3 b4 b5 b6 b7)
  show ?thesis
  proof (cases "is_upper c")
    case True
    with Char have "\<not> b5" using is_upper_bit5 by simp
    with True Char show ?thesis by (simp add: lower_char_def)
  next
    case False
    then show ?thesis by (simp add: lower_char_def)
  qed
qed

lemmas normalizeName_eval =
  normalizeName_def normalizeName_with_def trim_with_def split_with.simps is_space_def
  toLowerCase_def lower_char_def is_upper_def

text \<open>
  Claim C3. \<open>normalizeName\<close> trims the name and splits it on runs of whitespace. A name
  whose trimmed form holds no whitespace (fewer than two tokens: \<open>pre @ t @ post\<close> with
  \<open>pre\<close> and \<open>post\<close> whitespace and \<open>t\<close> free of it, possibly empty) gives the
  lower-cased input. A name with two tokens or more (\<open>pre @ t0 @ sep @ t1 @ rest @ post\<close>:
  \<open>t0\<close> and \<open>t1\<close> the first two tokens, \<open>sep\<close> the whitespace between them, \<open>rest\<close>
  empty or the further tokens with the whitespace before them) gives the lower-cased string
  made of the first two tokens joined by one space, swapped when \<open>reversed\<close> holds;
  \<open>rest\<close> does not matter. Every string has one of the two shapes, so the two cases cover
  every input. All this holds for every whitespace class \<open>ws\<close> and every lower-casing
  \<open>lc\<close>, over every type of code units, so for JavaScript's own on every string.

  On the code units below 256, \<open>normalizeName\<close> is this function at \<open>is_space\<close> and
  \<open>toLowerCase\<close>, where lower-casing works token by token (the result is
  "<token1> <token0>" or "<token0> <token1>" of the lower-cased tokens), a code unit is
  whitespace exactly when it is one of 9 to 13, 32 and 160, and lower-casing adds 32 to a
  capital and changes nothing else. "Doe Jane" reversed and "Jane Doe" unreversed both give
  "jane doe", "Madonna" gives "madonna", the empty string gives the empty key, a no-break
  space (U+00A0) separates tokens, and a capital E with acute (U+00C9) is lower-cased to
  U+00E9.
\<close>

theorem normalizeName_tokens:
  "(\<forall>pre t post. list_all ws pre \<and> list_all ws post \<and> \<not> list_ex ws t \<longrightarrow>
      normalizeName_with ws lc sp (pre @ t @ post) reversed = lc (pre @ t @ post)) \<and>
   (\<forall>pre t0 sep t1 rest post.
      list_all ws pre \<and> list_all ws post \<and>
      t0 \<noteq> [] \<and> \<not> list_ex ws t0 \<and> sep \<noteq> [] \<and> list_all ws sep \<and>
      t1 \<noteq> [] \<and> \<not> list_ex ws t1 \<and>
      (rest = [] \<or> (ws (hd rest) \<and> \<not> ws (last rest))) \<longrightarrow>
      normalizeName_with ws lc sp (pre @ t0 @ sep @ t1 @ rest @ post) reversed =
        lc (if reversed then t1 @ [sp] @ t0 else t0 @ [sp] @ t1)) \<and>
   ((\<exists>pre t post. s = pre @ t @ post \<and>
       list_all ws pre \<and> list_all ws post \<and> \<not> list_ex ws t) \<or>
    (\<exists>pre t0 sep t1 rest post. s = pre @ t0 @ sep @ t1 @ rest @ post \<and>
       list_all ws pre \<and> list_all ws post \<and>
       t0 \<noteq> [] \<and> \<not> list_ex ws t0 \<and> sep \<noteq> [] \<and> list_all ws sep \<and>
       t1 \<noteq> [] \<and> \<not> list_ex ws t1 \<and>
       (rest = [] \<or> (ws (hd rest) \<and> \<not> ws (last rest))))) \<and>
   normalizeName name reversed =
     normalizeName_with is_space toLowerCase (CHR '' '') name reversed \<and>
   toLowerCase (a @ '' '' @ b) = toLowerCase a @ '' '' @ toLowerCase b \<and>
   toLowerCase name = map lower_char name \<and>
   (is_space c \<longleftrightarrow> (of_char c :: nat) \<in> set [9, 10, 11, 12, 13, 32, 160]) \<and>
   (of_char (lower_char c) :: nat) =
     (if (65 \<le> (of_char c :: nat) \<and> (of_char c :: nat) \<le> 90) \<or>
         (192 \<le> (of_char c :: nat) \<and> (of_char c :: nat) \<le> 214) \<or>
         (216 \<le> (of_char c :: nat) \<and> (of_char c :: nat) \<le> 222)
      then of_char c + 32 else of_char c) \<and>
   normalizeName ''Doe Jane'' True = ''jane doe'' \<and>
   normalizeName ''Jane Doe'' False = ''jane doe'' \<and>
   normalizeName ''Madonna'' False = ''madonna'' \<and>
   normalizeName [] reversed = [] \<and>
   normalizeName (''Jane'' @ [CHR 0xA0] @ ''Doe'') False = ''jane doe'' \<and>
   normalizeName (CHR 0xC9 # ''MILE'') False = CHR 0xE9 # ''mile''"
proof (intro conjI allI impI)
  fix pre t post
  assume "list_all ws pre \<and> list_all ws post \<and> \<not> list_ex ws t"
  then show "normalizeName_with ws lc sp (pre @ t @ post) reversed = lc (pre @ t @ post)"
    by (simp add: normalizeName_single)
next
  fix pre t0 sep t1 rest post
  assume "list_all ws pre \<and> list_all ws post \<and>
      t0 \<noteq> [] \<and> \<not> list_ex ws t0 \<and> sep \<noteq> [] \<and> list_all ws sep \<and>
      t1 \<noteq> [] \<and> \<not> list_ex ws t1 \<and>
      (rest = [] \<or> (ws (hd rest) \<and> \<not> ws (last rest)))"
  then show "normalizeName_with ws lc sp (pre @ t0 @ sep @ t1 @ rest @ post) reversed =
        lc (if reversed then t1 @ [sp] @ t0 else t0 @ [sp] @ t1)"
    by (intro normalizeName_two) simp_all
next
  show "(\<exists>pre t post. s = pre @ t @ post \<and>
       list_all ws pre \<and> list_all ws post \<and> \<not> list_ex ws t) \<or>
    (\<exists>pre t0 sep t1 rest post. s = pre @ t0 @ sep @ t1 @ rest @ post \<and>
       list_all ws pre \<and> list_all ws post \<and>
       t0 \<noteq> [] \<and> \<not> list_ex ws t0 \<and> sep \<noteq> [] \<and> list_all ws sep \<and>
       t1 \<noteq> [] \<and> \<not> list_ex ws t1 \<and>
       (rest = [] \<or> (ws (hd rest) \<and> \<not> ws (last rest))))"
    by (rule name_shape)
  show "normalizeName name reversed =
     normalizeName_with is_space toLowerCase (CHR '' '') name reversed"
    by (rule normalizeName_def)
  show "toLowerCase (a @ '' '' @ b) = toLowerCase a @ '' '' @ toLowerCase b"
    by (simp add: toLowerCase_def lower_char_def is_upper_def)
  show "toLowerCase name = map lower_char name" by (rule toLowerCase_def)
  show "is_space c \<longleftrightarrow> (of_char c :: nat) \<in> set [9, 10, 11, 12, 13, 32, 160]"
    by (simp add: is_space_def)
  show "(of_char (lower_char c) :: nat) =
     (if (65 \<le> (of_char c :: nat) \<and> (of_char c :: nat) \<le> 90) \<or>
         (192 \<le> (of_char c :: nat) \<and> (of_char c :: nat) \<le> 214) \<or>
         (216 \<le> (of_char c :: nat) \<and> (of_char c :: nat) \<le> 222)
      then of_char c + 32 else of_char c)"
    using lower_char_code_unit [of c] by (simp add: is_upper_def Let_def)
  show "normalizeName ''Doe Jane'' True = ''jane doe''" by (simp add: normalizeName_eval)
  show "normalizeName ''Jane Doe'' False = ''jane doe''" by (simp add: normalizeName_eval)
  show "normalizeName ''Madonna'' False = ''madonna''" by (simp add: normalizeName_eval)
  show "normalizeName [] reversed = []" by (simp add: normalizeName_eval)
  show "normalizeName (''Jane'' @ [CHR 0xA0] @ ''Doe'') False = ''jane doe''"
    by (simp add: normalizeName_eval)
  show "normalizeName (CHR 0xC9 # ''MILE'') False = CHR 0xE9 # ''mile''"
    by (simp add: normalizeName_eval)
qed

theorem normalizeName_tokens_witness:
  "list_all is_space ''  '' \<and> list_all is_space '' '' \<and> \<not> list_ex is_space ''Madonna'' \<and>
   normalizeName (''  '' @ ''Madonna'' @ '' '') True = ''  madonna '' \<and>
   ''Doe'' \<noteq> [] \<and> \<not> list_ex is_space ''Doe'' \<and> list_all is_space [CHR 0x09, CHR 0xA0] \<and>
   \<not> list_ex is_space ''Jane'' \<and> is_space (hd '' Mary Ann'') \<and> \<not> is_space (last '' Mary Ann'') \<and>
   normalizeName (''  '' @ ''Doe'' @ [CHR 0x09, CHR 0xA0] @ ''Jane'' @ '' Mary Ann'' @ '' '') True =
     ''jane doe'' \<and>
   normalizeName (''  '' @ ''Doe'' @ [CHR 0x09, CHR 0xA0] @ ''Jane'' @ '' Mary Ann'' @ '' '') False =
     ''doe jane''"
proof -
  have s: "list_all is_space ''  ''" "list_all is_space '' ''"
    "list_all is_space [CHR 0x09, CHR 0xA0]"
    "\<not> list_ex is_space ''Madonna''" "\<not> list_ex is_space ''Doe''" "\<not> list_ex is_space ''Jane''"
    "is_space (hd '' Mary Ann'')" "\<not> is_space (last '' Mary Ann'')"
    by (simp_all add: is_space_def)
  have lc: "toLowerCase (''  '' @ ''Madonna'' @ '' '') = ''  madonna ''"
    "toLowerCase (''Jane'' @ '' '' @ ''Doe'') = ''jane doe''"
    "toLowerCase (''Doe'' @ '' '' @ ''Jane'') = ''doe jane''"
    by (simp_all add: toLowerCase_def lower_char_def is_upper_def)
  have a: "normalizeName (''  '' @ ''Madonna'' @ '' '') True = ''  madonna ''"
    using normalizeName_tokens [where ws = is_space and lc = toLowerCase and sp = "CHR '' ''"
        and reversed = True, THEN conjunct1, rule_format, of "''  ''" "'' ''" "''Madonna''"] s lc
    by (simp add: normalizeName_def)
  have b: "normalizeName (''  '' @ ''Doe'' @ [CHR 0x09, CHR 0xA0] @ ''Jane'' @ '' Mary Ann'' @ '' '') True
      = ''jane doe''"
    using normalizeName_tokens [where ws = is_space and lc = toLowerCase and sp = "CHR '' ''"
        and reversed = True, THEN conjunct2, THEN conjunct1, rule_format,
        of "''  ''" "'' ''" "''Doe''" "[CHR 0x09, CHR 0xA0]" "''Jane''" "'' Mary Ann''"] s lc
    by (simp add: normalizeName_def)
  have c: "normalizeName (''  '' @ ''Doe'' @ [CHR 0x09, CHR 0xA0] @ ''Jane'' @ '' Mary Ann'' @ '' '') False
      = ''doe jane''"
    using normalizeName_tokens [where ws = is_space and lc = toLowerCase and sp = "CHR '' ''"
        and reversed = False, THEN conjunct2, THEN conjunct1, rule_format,
        of "''  ''" "'' ''" "''Doe''" "[CHR 0x09, CHR 0xA0]" "''Jane''" "'' Mary Ann''"] s lc
    by (simp add: normalizeName_def)
  from s a b c show ?thesis by simp
qed

section \<open>Top-K selection: properties\<close>

lemma mset_insert_by: "mset (insert_by cmp x ys) = add_mset x (mset ys)"
  by (induction ys) auto

lemma mset_array_sort: "mset (array_sort cmp xs) = mset xs"
  by (induction xs) (auto simp: array_sort_def mset_insert_by)

lemma set_insert_by: "set (insert_by cmp x ys) = insert x (set ys)"
  using mset_insert_by [of cmp x ys, THEN arg_cong, of set_mset] by simp

lemma length_array_sort: "length (array_sort cmp xs) = length xs"
  using mset_array_sort [of cmp xs, THEN arg_cong, of size] by simp

lemma sorted_insert_by_count:
  "sorted_wrt (\<lambda>a b. snd b \<le> snd a) ys \<Longrightarrow>
   sorted_wrt (\<lambda>a b. snd b \<le> snd a) (insert_by by_count_desc x ys)"
  by (induction ys) (auto simp: set_insert_by by_count_desc_def)

lemma sorted_array_sort_count:
  "sorted_wrt (\<lambda>a b. snd b \<le> snd a) (array_sort by_count_desc xs)"
  by (induction xs) (auto simp: array_sort_def sorted_insert_by_count)

lemma filter_insert_by_count:
  "filter (\<lambda>e. snd e = c) (insert_by by_count_desc x ys) =
     (if snd x = c then x # filter (\<lambda>e. snd e = c) ys else filter (\<lambda>e. snd e = c) ys)"
  by (induction ys) (auto simp: by_count_desc_def)

lemma stable_array_sort_count:
  "filter (\<lambda>e. snd e = c) (array_sort by_count_desc xs) = filter (\<lambda>e. snd e = c) xs"
  by (induction xs) (auto simp: array_sort_def filter_insert_by_count)

lemma set_topK_subset: "set (topK entries k) \<subseteq> fst ` set entries"
proof -
  have "set (take k (array_sort by_count_desc entries)) \<subseteq> set (array_sort by_count_desc entries)"
    by (rule set_take_subset)
  also have "\<dots> = set entries"
    using mset_array_sort [of by_count_desc entries, THEN arg_cong, of set_mset] by simp
  finally show ?thesis by (auto simp: topK_def)
qed

text \<open>
  Claim C4. For every sequence of (key, count) entries and every \<open>k\<close>, the ranking sorts
  the entries by descending count: the sorted array is a permutation of the entries, its
  counts never increase, and the entries of any one count keep their original relative
  order (the sort is stable). \<open>topK\<close> returns the keys of its first \<open>k\<close> entries, so
  \<open>min k (length entries)\<close> keys, and every key when the entries are at most \<open>k\<close>.
  On [("A", 5), ("B", 10), ("C", 1)] with \<open>k = 2\<close> it returns ["B", "A"]. The result is a
  function of the entries alone.
\<close>

theorem topK_stable_descending:
  "mset (array_sort by_count_desc entries) = mset entries \<and>
   sorted_wrt (\<lambda>a b. snd b \<le> snd a) (array_sort by_count_desc entries) \<and>
   (\<forall>c. filter (\<lambda>e. snd e = c) (array_sort by_count_desc entries) =
        filter (\<lambda>e. snd e = c) entries) \<and>
   topK entries k = map fst (take k (array_sort by_count_desc entries)) \<and>
   length (topK entries k) = min k (length entries) \<and>
   (length entries \<le> k \<longrightarrow> mset (topK entries k) = mset (map fst entries)) \<and>
   topK [(''A'', 5), (''B'', 10), (''C'', 1)] 2 = [''B'', ''A'']"
proof (intro conjI allI impI)
  show "length (topK entries k) = min k (length entries)"
    by (simp add: topK_def length_array_sort min.commute)
  show "topK [(''A'', 5), (''B'', 10), (''C'', 1)] 2 = [''B'', ''A'']"
    by (simp add: topK_def array_sort_def by_count_desc_def)
  assume "length entries \<le> k"
  then have "take k (array_sort by_count_desc entries) = array_sort by_count_desc entries"
    by (simp add: length_array_sort)
  moreover have "mset (map fst (array_sort by_count_desc entries)) =
      image_mset fst (mset (array_sort by_count_desc entries))" by simp
  ultimately show "mset (topK entries k) = mset (map fst entries)"
    by (simp only: topK_def mset_array_sort mset_map)
qed (simp_all add: mset_array_sort sorted_array_sort_count stable_array_sort_count topK_def)

theorem topK_stable_descending_witness:
  "length [(''A'', 5::nat), (''B'', 10), (''C'', 1)] \<le> 5 \<and>
   topK [(''A'', 5), (''B'', 10), (''C'', 1)] 5 = [''B'', ''A'', ''C''] \<and>
   mset (topK [(''A'', 5), (''B'', 10), (''C'', 1)] 5) = mset [''A'', ''B'', ''C'']"
  using topK_stable_descending [of "[(''A'', 5), (''B'', 10), (''C'', 1)]" 5]
  by (simp add: topK_def array_sort_def by_count_desc_def)

section \<open>Aggregation: properties\<close>

lemma first_seen_snoc:
  "first_seen (ys @ [y]) = (if y \<in> set ys then first_seen ys else first_seen ys @ [y])"
  by (simp add: first_seen_def)

lemma set_first_seen [simp]: "set (first_seen ys) = set ys"
  by (simp add: first_seen_def)

lemma distinct_first_seen [simp]: "distinct (first_seen ys)"
  by (simp add: first_seen_def)

lemma first_seen_Nil [simp]: "first_seen [] = []"
  by (simp add: first_seen_def)

lemma group_insert_map:
  "distinct ks \<Longrightarrow>
   group_insert k v (map (\<lambda>j. (j, F j)) ks) =
     (if k \<in> set ks then map (\<lambda>j. (j, if j = k then F j @ [v] else F j)) ks
      else map (\<lambda>j. (j, F j)) ks @ [(k, [v])])"
  by (induction ks) auto

lemma groups_snoc: "groups f (xs @ [x]) = group_insert (f x) x (groups f xs)"
  by (simp add: groups_def)

lemma groups_eq:
  "groups f xs = map (\<lambda>k. (k, filter (\<lambda>x. f x = k) xs)) (first_seen (map f xs))"
proof (induction xs rule: rev_induct)
  case Nil
  show ?case by (simp add: groups_def)
next
  case (snoc x xs)
  let ?ks = "first_seen (map f xs)"
  have d: "distinct ?ks" by simp
  show ?case
  proof (cases "f x \<in> set (map f xs)")
    case True
    then have "f x \<in> set ?ks" by simp
    with True show ?thesis
      by (simp add: groups_snoc snoc.IH group_insert_map [OF d] first_seen_snoc)
  next
    case False
    then have "f x \<notin> set ?ks" by simp
    moreover from False have "filter (\<lambda>y. f y = f x) xs = []"
      by (force simp: filter_empty_conv image_iff)
    moreover from False have "\<And>k. k \<in> set ?ks \<Longrightarrow> f x \<noteq> k" by auto
    ultimately show ?thesis using False
      by (simp add: groups_snoc snoc.IH group_insert_map [OF d] first_seen_snoc)
  qed
qed

lemma rollups_eq:
  "rollups reduce f xs =
     map (\<lambda>k. (k, reduce (filter (\<lambda>x. f x = k) xs))) (first_seen (map f xs))"
  by (simp add: rollups_def groups_eq o_def)

lemma rollups2_eq:
  "rollups2 reduce f g xs =
     map (\<lambda>k. (k, map (\<lambda>j. (j, reduce (filter (\<lambda>x. g x = j) (filter (\<lambda>x. f x = k) xs))))
                    (first_seen (map g (filter (\<lambda>x. f x = k) xs)))))
       (first_seen (map f xs))"
  by (simp add: rollups2_def groups_eq rollups_eq o_def)

lemmas rollups_eval = rollups2_def rollups_def groups_def

text \<open>
  Claim C6. For every sequence of records and key functions \<open>dim1Fn\<close> and \<open>dim2Fn\<close>, the
  two-level aggregation has one group per value of \<open>dim1Fn\<close>, in the order of first
  occurrence; inside the group of \<open>k\<close> one entry per value of \<open>dim2Fn\<close> among the
  records of \<open>k\<close>, again in the order of first occurrence; and the entry of \<open>(k, j)\<close>
  counts the records with \<open>dim1Fn r = k\<close> and \<open>dim2Fn r = j\<close>. Three records (X, A),
  (X, A), (X, B) aggregate by country, then discipline, to X -> [("A", 2), ("B", 1)], and
  the heat map turns the entries into the cells (X, A, 2) and (X, B, 1).
\<close>

theorem rollups2_counts_pairs:
  "rollups2 length dim1Fn dim2Fn records =
     map (\<lambda>k. (k, map (\<lambda>j. (j, length (filter (\<lambda>r. dim1Fn r = k \<and> dim2Fn r = j) records)))
                    (first_seen (map dim2Fn (filter (\<lambda>r. dim1Fn r = k) records)))))
       (first_seen (map dim1Fn records)) \<and>
   rollups2 length country discipline
     [\<lparr>country = ''X'', discipline = ''A''\<rparr>, \<lparr>country = ''X'', discipline = ''A''\<rparr>,
      \<lparr>country = ''X'', discipline = ''B''\<rparr>] = [(''X'', [(''A'', 2), (''B'', 1)])] \<and>
   heatmap_cells
     [\<lparr>country = ''X'', discipline = ''A''\<rparr>, \<lparr>country = ''X'', discipline = ''A''\<rparr>,
      \<lparr>country = ''X'', discipline = ''B''\<rparr>] =
     [\<lparr>country = ''X'', discipline = ''A'', cell_value = 2\<rparr>,
      \<lparr>country = ''X'', discipline = ''B'', cell_value = 1\<rparr>]"
proof (intro conjI)
  show "rollups2 length dim1Fn dim2Fn records =
     map (\<lambda>k. (k, map (\<lambda>j. (j, length (filter (\<lambda>r. dim1Fn r = k \<and> dim2Fn r = j) records)))
                    (first_seen (map dim2Fn (filter (\<lambda>r. dim1Fn r = k) records)))))
       (first_seen (map dim1Fn records))"
    by (simp add: rollups2_eq)
qed (simp_all add: heatmap_cells_def rollups_eval)

section \<open>Entries of a two-level aggregate\<close>

lemma triples_rollups2:
  "triples (rollups2 length f g xs) =
     concat (map (\<lambda>k. map (\<lambda>j. (k, j, length (filter (\<lambda>r. f r = k \<and> g r = j) xs)))
                        (first_seen (map g (filter (\<lambda>r. f r = k) xs))))
       (first_seen (map f xs)))"
  by (simp add: triples_def rollups2_eq o_def)

lemma set_triples_rollups2:
  "set (triples (rollups2 length f g xs)) =
     (\<lambda>r. (f r, g r, length (filter (\<lambda>x. f x = f r \<and> g x = g r) xs))) ` set xs"
proof (intro set_eqI iffI)
  fix t
  assume "t \<in> set (triples (rollups2 length f g xs))"
  then obtain a b where a: "a \<in> set xs" and b: "b \<in> set xs" "f b = f a"
    and t: "t = (f a, g b, length (filter (\<lambda>r. f r = f a \<and> g r = g b) xs))"
    by (auto simp: triples_rollups2)
  from b t have "t = (f b, g b, length (filter (\<lambda>x. f x = f b \<and> g x = g b) xs))" by simp
  with b(1) show "t \<in> (\<lambda>r. (f r, g r, length (filter (\<lambda>x. f x = f r \<and> g x = g r) xs))) ` set xs"
    by (rule image_eqI [rotated])
next
  fix t
  assume "t \<in> (\<lambda>r. (f r, g r, length (filter (\<lambda>x. f x = f r \<and> g x = g r) xs))) ` set xs"
  then show "t \<in> set (triples (rollups2 length f g xs))"
    by (auto simp: triples_rollups2)
qed

lemma distinct_concat_pairs:
  "distinct ks \<Longrightarrow> (\<And>k. distinct (D k)) \<Longrightarrow>
   distinct (concat (map (\<lambda>k. map (\<lambda>j. (k, j)) (D k)) ks))"
  by (induction ks) (auto simp: distinct_map inj_on_def)

lemma distinct_triples_keys:
  "distinct (map (\<lambda>(k, j, n). (k, j)) (triples (rollups2 length f g xs)))"
  using distinct_concat_pairs [of "first_seen (map f xs)"
      "\<lambda>k. first_seen (map g (filter (\<lambda>r. f r = k) xs))"]
  by (simp add: triples_rollups2 map_concat o_def)

lemma distinct_triples: "distinct (triples (rollups2 length f g xs))"
  using distinct_triples_keys [of f g xs] by (simp add: distinct_map)

lemma sum_list_delta:
  "distinct ks \<Longrightarrow> sum_list (map (\<lambda>k. if a = k then (c::nat) else 0) ks) = (if a \<in> set ks then c else 0)"
  by (induction ks) auto

lemma sum_list_concat_nat: "sum_list (concat xss) = sum_list (map sum_list (xss :: nat list list))"
  by (induction xss) auto

lemma length_filter_partition:
  "distinct ks \<Longrightarrow> f ` set xs \<subseteq> set ks \<Longrightarrow>
   length (filter P xs) = sum_list (map (\<lambda>k. length (filter (\<lambda>x. P x \<and> f x = k) xs)) ks)"
proof (induction xs)
  case Nil
  then show ?case by simp
next
  case (Cons x xs)
  have "sum_list (map (\<lambda>k. length (filter (\<lambda>y. P y \<and> f y = k) (x # xs))) ks) =
        sum_list (map (\<lambda>k. (if f x = k then (if P x then 1 else 0) else 0) +
                            length (filter (\<lambda>y. P y \<and> f y = k) xs)) ks)"
    by (intro arg_cong [where f = sum_list] map_cong) auto
  also have "\<dots> = sum_list (map (\<lambda>k. if f x = k then (if P x then 1 else 0) else 0) ks) +
                   sum_list (map (\<lambda>k. length (filter (\<lambda>y. P y \<and> f y = k) xs)) ks)"
    by (simp add: sum_list_addf)
  also have "\<dots> = (if P x then 1 else 0) + length (filter P xs)"
    using Cons by (simp add: sum_list_delta)
  finally show ?case by simp
qed

lemma sum_triples_rollups2:
  "sum_list (map (\<lambda>(k, j, n). n) (filter (\<lambda>(k, j, n). Q k j) (triples (rollups2 length f g xs)))) =
   length (filter (\<lambda>r. Q (f r) (g r)) xs)"
proof -
  let ?K = "first_seen (map f xs)"
  let ?D = "\<lambda>k. first_seen (map g (filter (\<lambda>r. f r = k) xs))"
  let ?n = "\<lambda>k j. length (filter (\<lambda>r. f r = k \<and> g r = j) xs)"
  have inner: "length (filter (\<lambda>r. Q (f r) (g r) \<and> f r = k) xs) =
      sum_list (map (\<lambda>j. if Q k j then ?n k j else 0) (?D k))" for k
  proof -
    have "length (filter (\<lambda>r. Q (f r) (g r) \<and> f r = k) xs) =
          length (filter (\<lambda>r. Q k (g r)) (filter (\<lambda>r. f r = k) xs))"
      by (simp add: conj_commute cong: conj_cong) 
    also have "\<dots> = sum_list (map (\<lambda>j. length (filter (\<lambda>r. Q k (g r) \<and> g r = j)
                        (filter (\<lambda>r. f r = k) xs))) (?D k))"
      by (rule length_filter_partition) auto
    also have "\<dots> = sum_list (map (\<lambda>j. if Q k j then ?n k j else 0) (?D k))"
    proof -
      have "length (filter (\<lambda>r. Q k (g r) \<and> g r = j) (filter (\<lambda>r. f r = k) xs)) =
            (if Q k j then ?n k j else 0)" for j
      proof -
        have "(\<lambda>x. f x = k \<and> Q k (g x) \<and> g x = j) = (\<lambda>x. Q k j \<and> f x = k \<and> g x = j)"
          by auto
        then show ?thesis by (cases "Q k j") simp_all
      qed
      then show ?thesis by simp
    qed
    finally show ?thesis .
  qed
  have "sum_list (map (\<lambda>(k, j, n). n) (filter (\<lambda>(k, j, n). Q k j) (triples (rollups2 length f g xs)))) =
        sum_list (map (\<lambda>k. sum_list (map (\<lambda>j. if Q k j then ?n k j else 0) (?D k))) ?K)"
    by (simp add: triples_rollups2 filter_concat map_concat sum_list_concat_nat o_def filter_map
          sum_list_map_filter')
  also have "\<dots> = sum_list (map (\<lambda>k. length (filter (\<lambda>r. Q (f r) (g r) \<and> f r = k) xs)) ?K)"
    by (simp add: inner)
  also have "\<dots> = length (filter (\<lambda>r. Q (f r) (g r)) xs)"
    by (rule length_filter_partition [symmetric]) auto
  finally show ?thesis .
qed

lemma heatmap_cells_triples:
  "heatmap_cells js =
     map (\<lambda>(c, d, n). \<lparr>country = c, discipline = d, cell_value = n\<rparr>)
       (triples (rollups2 length country discipline js))"
  by (simp add: heatmap_cells_def triples_def map_concat o_def split_def)

lemma links_of_triples:
  "links_of rolled =
     map (\<lambda>(k, j, n). \<lparr>source = k, target = j, link_value = n\<rparr>) (triples rolled)"
  by (simp add: links_of_def triples_def map_concat o_def split_def)

lemma remdups_append_filter:
  "remdups (xs @ ys) = filter (\<lambda>x. x \<notin> set ys) (remdups xs) @ remdups ys"
  by (induction xs) auto

lemma first_seen_append:
  "first_seen (xs @ ys) = first_seen xs @ filter (\<lambda>y. y \<notin> set xs) (first_seen ys)"
  by (simp add: first_seen_def remdups_append_filter rev_filter)

lemma first_seen_constant:
  "ys \<noteq> [] \<Longrightarrow> first_seen (map (\<lambda>j. k) ys) = [k]"
proof (induction ys rule: rev_induct)
  case Nil
  then show ?case by simp
next
  case (snoc y ys)
  show ?case
  proof (cases "ys = []")
    case True
    then show ?thesis by (simp add: first_seen_def)
  next
    case False
    then have "k \<in> set (map (\<lambda>j. k) ys)" by (cases ys) auto
    with snoc.IH [OF False] show ?thesis by (simp add: first_seen_snoc del: set_map)
  qed
qed

lemma first_seen_concat_constant:
  "distinct ks \<Longrightarrow> (\<And>k. k \<in> set ks \<Longrightarrow> D k \<noteq> []) \<Longrightarrow>
   first_seen (concat (map (\<lambda>k. map (\<lambda>j. k) (D k)) ks)) = ks"
proof (induction ks)
  case Nil
  show ?case by simp
next
  case (Cons k ks)
  have ih: "first_seen (concat (map (\<lambda>k. map (\<lambda>j. k) (D k)) ks)) = ks"
    using Cons by simp
  have "filter (\<lambda>y. y \<noteq> k) ks = ks"
    using Cons.prems(1) by (auto simp: filter_id_conv)
  moreover have "set (map (\<lambda>j. k) (D k)) = {k}"
    using Cons.prems(2) [of k] by (cases "D k") auto
  moreover have "first_seen (map (\<lambda>j. k) (D k)) = [k]"
    using Cons.prems(2) [of k] by (simp add: first_seen_constant)
  ultimately show ?case
    by (simp add: first_seen_append ih del: set_map)
qed

lemma first_seen_keys_triples:
  "first_seen (map fst (triples (rollups2 length f g xs))) = first_seen (map f xs)"
proof -
  have "map fst (triples (rollups2 length f g xs)) =
        concat (map (\<lambda>k. map (\<lambda>j. k) (first_seen (map g (filter (\<lambda>r. f r = k) xs))))
          (first_seen (map f xs)))"
    by (simp add: triples_rollups2 map_concat o_def)
  moreover have "first_seen (map g (filter (\<lambda>r. f r = k) xs)) \<noteq> []"
    if "k \<in> set (first_seen (map f xs))" for k
  proof -
    from that obtain r where "r \<in> set xs" "f r = k" by auto
    then have "g r \<in> set (first_seen (map g (filter (\<lambda>r. f r = k) xs)))" by simp
    then show ?thesis by (metis empty_iff empty_set)
  qed
  then have "first_seen (concat (map (\<lambda>k. map (\<lambda>j. k)
        (first_seen (map g (filter (\<lambda>r. f r = k) xs)))) (first_seen (map f xs)))) =
      first_seen (map f xs)"
    by (intro first_seen_concat_constant distinct_first_seen)
  ultimately show ?thesis by (simp only:)
qed

lemma heatmap_country_totals:
  "rollups (\<lambda>v. d3_sum v cell_value) country (heatmap_cells js) =
     totals country js (first_seen (map country js))"
proof -
  let ?T = "triples (rollups2 length country discipline js)"
  let ?mk = "\<lambda>(c, d, n). \<lparr>country = c, discipline = d, cell_value = n\<rparr>"
  have keys: "map country (heatmap_cells js) = map fst ?T"
    by (simp add: heatmap_cells_triples split_def o_def)
  have "d3_sum (filter (\<lambda>x. country x = k) (heatmap_cells js)) cell_value =
        length (filter (\<lambda>r. country r = k) js)" for k
  proof -
    have "d3_sum (filter (\<lambda>x. country x = k) (heatmap_cells js)) cell_value =
          sum_list (map (\<lambda>(c, d, n). n) (filter (\<lambda>(c, d, n). c = k) ?T))"
      by (simp add: d3_sum_def heatmap_cells_triples filter_map o_def split_def)
    then show ?thesis
      using sum_triples_rollups2 [of "\<lambda>c d. c = k" country discipline js] by simp
  qed
  then show ?thesis
    by (simp add: rollups_eq totals_def keys first_seen_keys_triples)
qed

lemma heatmap_discipline_totals:
  "rollups (\<lambda>v. d3_sum v cell_value) discipline (heatmap_cells js) =
     totals discipline js (first_seen (map discipline (heatmap_cells js)))"
proof -
  let ?T = "triples (rollups2 length country discipline js)"
  have "d3_sum (filter (\<lambda>x. discipline x = k) (heatmap_cells js)) cell_value =
        length (filter (\<lambda>r. discipline r = k) js)" for k
  proof -
    have "d3_sum (filter (\<lambda>x. discipline x = k) (heatmap_cells js)) cell_value =
          sum_list (map (\<lambda>(c, d, n). n) (filter (\<lambda>(c, d, n). d = k) ?T))"
      by (simp add: d3_sum_def heatmap_cells_triples filter_map o_def split_def)
    then show ?thesis
      using sum_triples_rollups2 [of "\<lambda>c d. d = k" country discipline js] by simp
  qed
  then show ?thesis
    by (simp add: rollups_eq totals_def)
qed

lemma set_heatmap_cells:
  "set (heatmap_cells js) =
     (\<lambda>r. \<lparr>country = country r, discipline = discipline r,
            cell_value = length (filter (\<lambda>x. country x = country r \<and> discipline x = discipline r) js)\<rparr>)
       ` set js"
  by (simp add: heatmap_cells_triples set_triples_rollups2 image_image)

lemma filter_triples_rollups2:
  "mset (filter (\<lambda>(k, j, n). Q k j) (triples (rollups2 length f g xs))) =
   mset (triples (rollups2 length f g (filter (\<lambda>r. Q (f r) (g r)) xs)))"
proof -
  have n: "length (filter (\<lambda>x. f x = f r \<and> g x = g r) (filter (\<lambda>r. Q (f r) (g r)) xs)) =
           length (filter (\<lambda>x. f x = f r \<and> g x = g r) xs)" if "Q (f r) (g r)" for r
  proof -
    have "(\<lambda>x. Q (f x) (g x) \<and> f x = f r \<and> g x = g r) = (\<lambda>x. f x = f r \<and> g x = g r)"
      using that by auto
    then show ?thesis by simp
  qed
  let ?t = "\<lambda>ys r. (f r, g r, length (filter (\<lambda>x. f x = f r \<and> g x = g r) ys))"
  let ?F = "filter (\<lambda>r. Q (f r) (g r)) xs"
  have "set (filter (\<lambda>(k, j, n). Q k j) (triples (rollups2 length f g xs))) =
        {t \<in> ?t xs ` set xs. case t of (k, j, n) \<Rightarrow> Q k j}"
    by (simp add: set_triples_rollups2)
  also have "\<dots> = ?t xs ` {r \<in> set xs. Q (f r) (g r)}"
    by auto
  also have "\<dots> = ?t ?F ` {r \<in> set xs. Q (f r) (g r)}"
    by (rule image_cong) (simp_all only: n mem_Collect_eq)
  also have "\<dots> = set (triples (rollups2 length f g ?F))"
    by (simp only: set_triples_rollups2 set_filter)
  finally have "set (filter (\<lambda>(k, j, n). Q k j) (triples (rollups2 length f g xs))) =
        set (triples (rollups2 length f g (filter (\<lambda>r. Q (f r) (g r)) xs)))" .
  moreover have "distinct (filter (\<lambda>(k, j, n). Q k j) (triples (rollups2 length f g xs)))"
    by (simp add: distinct_triples)
  moreover have "distinct (triples (rollups2 length f g (filter (\<lambda>r. Q (f r) (g r)) xs)))"
    by (rule distinct_triples)
  ultimately show ?thesis
    by (simp only: set_eq_iff_mset_eq_distinct)
qed

lemma triples_rollups2_map:
  "triples (rollups2 length f g (map h xs)) = triples (rollups2 length (f \<circ> h) (g \<circ> h) xs)"
  by (simp add: triples_rollups2 filter_map o_def)

section \<open>The conjunctive filter\<close>

text \<open>
  Claim C1. For every sequence of joined records, a record is in the Sankey pipeline's
  \<open>filtered\<close> list if and only if it is a joined record, its country is among the top 8
  countries by total count and its discipline is among the top 8 disciplines by total
  count. A cell is in the heat map's filtered cell list if and only if it is a cell of the
  aggregate, its country is among the top 15 countries by total count and its discipline
  among the top 8 disciplines by total count; the sums of cell values the heat map ranks by
  are the total counts of the joined records (countries ranked in the order they first
  occur among the records, disciplines in the order they first occur among the cells), and
  the cells are the (country, discipline) pairs of the records with their counts. Both
  conditions are needed: the right-hand sides are conjunctions.
\<close>

theorem conjunctive_filter:
  "(r \<in> set (sankey_filtered js) \<longleftrightarrow>
      r \<in> set js \<and>
      country r \<in> set (topK (totals country js (first_seen (map country js))) 8) \<and>
      discipline r \<in> set (topK (totals discipline js (first_seen (map discipline js))) 8)) \<and>
   (c \<in> set (heatmap_filtered (heatmap_cells hs)) \<longleftrightarrow>
      c \<in> set (heatmap_cells hs) \<and>
      country c \<in> set (topK (totals country hs (first_seen (map country hs))) 15) \<and>
      discipline c \<in> set (topK (totals discipline hs
                                 (first_seen (map discipline (heatmap_cells hs)))) 8)) \<and>
   set (heatmap_cells hs) =
     (\<lambda>r. \<lparr>country = country r, discipline = discipline r,
            cell_value = length (filter (\<lambda>x. country x = country r \<and>
                                             discipline x = discipline r) hs)\<rparr>) ` set hs"
proof (intro conjI)
  show "r \<in> set (sankey_filtered js) \<longleftrightarrow>
      r \<in> set js \<and>
      country r \<in> set (topK (totals country js (first_seen (map country js))) 8) \<and>
      discipline r \<in> set (topK (totals discipline js (first_seen (map discipline js))) 8)"
    by (simp add: sankey_filtered_def sankey_topCountries_def sankey_topDisciplines_def
          rollups_eq totals_def)
  show "c \<in> set (heatmap_filtered (heatmap_cells hs)) \<longleftrightarrow>
      c \<in> set (heatmap_cells hs) \<and>
      country c \<in> set (topK (totals country hs (first_seen (map country hs))) 15) \<and>
      discipline c \<in> set (topK (totals discipline hs
                                 (first_seen (map discipline (heatmap_cells hs)))) 8)"
    by (simp add: heatmap_filtered_def heatmap_topCountries_def heatmap_topDisciplines_def
          heatmap_country_totals heatmap_discipline_totals)
  show "set (heatmap_cells hs) =
     (\<lambda>r. \<lparr>country = country r, discipline = discipline r,
            cell_value = length (filter (\<lambda>x. country x = country r \<and>
                                             discipline x = discipline r) hs)\<rparr>) ` set hs"
    by (rule set_heatmap_cells)
qed

theorem conjunctive_filter_witness:
  "\<lparr>country = ''X'', discipline = ''D9'', medal = ''Gold''\<rparr> \<in>
     set (map (\<lambda>d. \<lparr>country = ''X'', discipline = d, medal = ''Gold''\<rparr>)
       [''D1'', ''D1'', ''D2'', ''D2'', ''D3'', ''D3'', ''D4'', ''D4'', ''D5'', ''D5'',
        ''D6'', ''D6'', ''D7'', ''D7'', ''D8'', ''D8'', ''D9'']) \<and>
   ''X'' \<in> set (sankey_topCountries
     (map (\<lambda>d. \<lparr>country = ''X'', discipline = d, medal = ''Gold''\<rparr>)
       [''D1'', ''D1'', ''D2'', ''D2'', ''D3'', ''D3'', ''D4'', ''D4'', ''D5'', ''D5'',
        ''D6'', ''D6'', ''D7'', ''D7'', ''D8'', ''D8'', ''D9''])) \<and>
   \<lparr>country = ''X'', discipline = ''D9'', medal = ''Gold''\<rparr> \<notin>
     set (sankey_filtered (map (\<lambda>d. \<lparr>country = ''X'', discipline = d, medal = ''Gold''\<rparr>)
       [''D1'', ''D1'', ''D2'', ''D2'', ''D3'', ''D3'', ''D4'', ''D4'', ''D5'', ''D5'',
        ''D6'', ''D6'', ''D7'', ''D7'', ''D8'', ''D8'', ''D9''])) \<and>
   \<lparr>country = ''X'', discipline = ''D8'', medal = ''Gold''\<rparr> \<in>
     set (sankey_filtered (map (\<lambda>d. \<lparr>country = ''X'', discipline = d, medal = ''Gold''\<rparr>)
       [''D1'', ''D1'', ''D2'', ''D2'', ''D3'', ''D3'', ''D4'', ''D4'', ''D5'', ''D5'',
        ''D6'', ''D6'', ''D7'', ''D7'', ''D8'', ''D8'', ''D9'']))"
proof -
  let ?js = "map (\<lambda>d. \<lparr>country = ''X'', discipline = d, medal = ''Gold''\<rparr>)
       [''D1'', ''D1'', ''D2'', ''D2'', ''D3'', ''D3'', ''D4'', ''D4'', ''D5'', ''D5'',
        ''D6'', ''D6'', ''D7'', ''D7'', ''D8'', ''D8'', ''D9'']"
  have d: "topK (totals discipline ?js (first_seen (map discipline ?js))) 8 =
      [''D1'', ''D2'', ''D3'', ''D4'', ''D5'', ''D6'', ''D7'', ''D8'']"
    by (simp add: totals_def first_seen_def topK_def array_sort_def by_count_desc_def)
  have c: "topK (totals country ?js (first_seen (map country ?js))) 8 = [''X'']"
    by (simp add: totals_def first_seen_def topK_def array_sort_def by_count_desc_def)
  have tc: "sankey_topCountries ?js = [''X'']"
    using c by (simp only: sankey_topCountries_def rollups_eq totals_def)
  have m: "\<lparr>country = ''X'', discipline = ''D9'', medal = ''Gold''\<rparr> \<in> set ?js"
    "\<lparr>country = ''X'', discipline = ''D8'', medal = ''Gold''\<rparr> \<in> set ?js"
    by simp_all
  have "\<lparr>country = ''X'', discipline = ''D9'', medal = ''Gold''\<rparr> \<notin> set (sankey_filtered ?js)"
    using conjunctive_filter
      [of "\<lparr>country = ''X'', discipline = ''D9'', medal = ''Gold''\<rparr>" ?js, THEN conjunct1]
    by (simp only: d c) simp
  moreover have "\<lparr>country = ''X'', discipline = ''D8'', medal = ''Gold''\<rparr> \<in> set (sankey_filtered ?js)"
    using conjunctive_filter
      [of "\<lparr>country = ''X'', discipline = ''D8'', medal = ''Gold''\<rparr>" ?js, THEN conjunct1] m(2)
    by (simp only: d c) simp
  ultimately show ?thesis using m(1) tc by simp
qed

section \<open>The join: properties\<close>

lemma nameToCountry_snoc:
  "nameToCountry (ms @ [d]) =
     (if \<not> truthy (d ''name'') \<or> \<not> truthy (d ''country'') then nameToCountry ms
      else (nameToCountry ms)(normalizeName (the (d ''name'')) True \<mapsto> the (d ''country'')))"
  by (simp add: nameToCountry_def)

lemma nameToCountry_last_wins:
  "nameToCountry ms k =
     map_option (\<lambda>d. the (d ''country''))
       (find (\<lambda>d. truthy (d ''name'') \<and> truthy (d ''country'') \<and>
                   normalizeName (the (d ''name'')) True = k) (rev ms))"
proof (induction ms rule: rev_induct)
  case Nil
  show ?case by (simp add: nameToCountry_def)
next
  case (snoc d ms)
  then show ?case by (auto simp: nameToCountry_snoc)
qed

lemma nameToCountry_truthy: "nameToCountry ms k = Some c \<Longrightarrow> c \<noteq> []"
proof (induction ms arbitrary: c rule: rev_induct)
  case Nil
  then show ?case by (simp add: nameToCountry_def)
next
  case (snoc d ms)
  then show ?case
    by (auto simp: nameToCountry_snoc truthy_def split: if_splits option.splits)
qed

lemma map_the_filter_concat:
  "map the (filter (\<lambda>d. d \<noteq> None) (map f xs)) =
     concat (map (\<lambda>x. case f x of None \<Rightarrow> [] | Some y \<Rightarrow> [y]) xs)"
  by (induction xs) (auto split: option.splits)

lemma sankey_joined_rows:
  "sankey_joined ms md =
     concat (map (\<lambda>d.
        if truthy (d ''name'') \<and> truthy (d ''discipline'') \<and> truthy (d ''medal_type'')
        then (case nameToCountry ms (normalizeName (the (d ''name'')) False) of
                None \<Rightarrow> []
              | Some c \<Rightarrow> [\<lparr>country = c, discipline = the (d ''discipline''),
                             medal = the (d ''medal_type'')\<rparr>])
        else []) md)"
proof -
  have "(case sankey_join_row (nameToCountry ms) d of None \<Rightarrow> [] | Some y \<Rightarrow> [y]) =
        (if truthy (d ''name'') \<and> truthy (d ''discipline'') \<and> truthy (d ''medal_type'')
         then (case nameToCountry ms (normalizeName (the (d ''name'')) False) of
                None \<Rightarrow> []
              | Some c \<Rightarrow> [\<lparr>country = c, discipline = the (d ''discipline''),
                             medal = the (d ''medal_type'')\<rparr>])
         else [])" for d
    using nameToCountry_truthy [of ms "normalizeName (the (d ''name'')) False"]
    by (auto simp: sankey_join_row_def Let_def truthy_def split: option.splits)
  then show ?thesis
    unfolding sankey_joined_def map_the_filter_concat by (simp only:)
qed

lemma heatmap_joined_rows:
  "heatmap_joined ms md =
     concat (map (\<lambda>d.
        if truthy (d ''name'') \<and> truthy (d ''discipline'')
        then (case nameToCountry ms (normalizeName (the (d ''name'')) False) of
                None \<Rightarrow> []
              | Some c \<Rightarrow> [\<lparr>country = c, discipline = the (d ''discipline'')\<rparr>])
        else []) md)"
proof -
  have "(case heatmap_join_row (nameToCountry ms) d of None \<Rightarrow> [] | Some y \<Rightarrow> [y]) =
        (if truthy (d ''name'') \<and> truthy (d ''discipline'')
         then (case nameToCountry ms (normalizeName (the (d ''name'')) False) of
                None \<Rightarrow> []
              | Some c \<Rightarrow> [\<lparr>country = c, discipline = the (d ''discipline'')\<rparr>])
         else [])" for d
    using nameToCountry_truthy [of ms "normalizeName (the (d ''name'')) False"]
    by (auto simp: heatmap_join_row_def Let_def truthy_def split: option.splits)
  then show ?thesis
    unfolding heatmap_joined_def map_the_filter_concat by (simp only:)
qed

lemma normalizeName_examples:
  "normalizeName ''Jane Doe'' True = ''doe jane''"
  "normalizeName ''Doe Jane'' False = ''doe jane''"
  "normalizeName ''No Match'' False = ''no match''"
  by (simp_all add: normalizeName_eval)

lemmas join_eval =
  sankey_joined_def sankey_join_row_def heatmap_joined_def heatmap_join_row_def
  nameToCountry_def truthy_def normalizeName_examples

lemma heatmap_join_example:
  "heatmap_joined [[''name'' \<mapsto> ''Jane Doe'', ''country'' \<mapsto> ''X'']]
     [[''name'' \<mapsto> ''Doe Jane'', ''discipline'' \<mapsto> ''Fencing''],
      [''name'' \<mapsto> ''No Match'', ''discipline'' \<mapsto> ''Judo'']] =
     [\<lparr>country = ''X'', discipline = ''Fencing''\<rparr>]"
  by (simp add: join_eval)

text \<open>
  Claim C2, as stated, at its own example: the medals rows of the example have no medal
  type, and the Sankey join drops such a row although its normalized name is in the index.
  The example yields no record.
\<close>

theorem sankey_join_example_counterexample:
  "nameToCountry [[''name'' \<mapsto> ''Jane Doe'', ''country'' \<mapsto> ''X'']]
     (normalizeName ''Doe Jane'' False) = Some ''X'' \<and>
   sankey_joined [[''name'' \<mapsto> ''Jane Doe'', ''country'' \<mapsto> ''X'']]
     [[''name'' \<mapsto> ''Doe Jane'', ''discipline'' \<mapsto> ''Fencing''],
      [''name'' \<mapsto> ''No Match'', ''discipline'' \<mapsto> ''Judo'']] = []"
  by (simp add: join_eval)

text \<open>
  Claim C2, amended. The index maps a normalized name (medallists are keyed reversed) to
  the country of the last medallist row with that key among the rows that have a non-empty
  name and a non-empty country; the other medallist rows are skipped. Every medals row with
  a non-empty name, discipline and medal type whose normalized name (keyed unreversed) is
  in the index yields exactly one joined record, made of the indexed country and the row's
  discipline and medal type; every other medals row yields none; the records keep the order
  of the rows. With a medal type on both medals rows, the example yields exactly the record
  (X, Fencing, Gold Medal); of three medallist rows with the key "doe jane" the last one with
  a country wins.
\<close>

theorem sankey_join_inner:
  "nameToCountry medallists k =
     map_option (\<lambda>d. the (d ''country''))
       (find (\<lambda>d. truthy (d ''name'') \<and> truthy (d ''country'') \<and>
                   normalizeName (the (d ''name'')) True = k) (rev medallists)) \<and>
   sankey_joined medallists medals =
     concat (map (\<lambda>d.
        if truthy (d ''name'') \<and> truthy (d ''discipline'') \<and> truthy (d ''medal_type'')
        then (case nameToCountry medallists (normalizeName (the (d ''name'')) False) of
                None \<Rightarrow> []
              | Some c \<Rightarrow> [\<lparr>country = c, discipline = the (d ''discipline''),
                             medal = the (d ''medal_type'')\<rparr>])
        else []) medals) \<and>
   sankey_joined [[''name'' \<mapsto> ''Jane Doe'', ''country'' \<mapsto> ''X'']]
     [[''name'' \<mapsto> ''Doe Jane'', ''discipline'' \<mapsto> ''Fencing'', ''medal_type'' \<mapsto> ''Gold Medal''],
      [''name'' \<mapsto> ''No Match'', ''discipline'' \<mapsto> ''Judo'', ''medal_type'' \<mapsto> ''Gold Medal'']] =
     [\<lparr>country = ''X'', discipline = ''Fencing'', medal = ''Gold Medal''\<rparr>] \<and>
   nameToCountry [[''name'' \<mapsto> ''Jane Doe'', ''country'' \<mapsto> ''X''],
                  [''name'' \<mapsto> ''Jane   Doe'', ''country'' \<mapsto> ''Y''],
                  [''name'' \<mapsto> ''Jane Doe'', ''country'' \<mapsto> []]] ''doe jane'' = Some ''Y''"
proof (intro conjI)
  show "nameToCountry [[''name'' \<mapsto> ''Jane Doe'', ''country'' \<mapsto> ''X''],
                  [''name'' \<mapsto> ''Jane   Doe'', ''country'' \<mapsto> ''Y''],
                  [''name'' \<mapsto> ''Jane Doe'', ''country'' \<mapsto> []]] ''doe jane'' = Some ''Y''"
    by (simp add: nameToCountry_def truthy_def normalizeName_eval)
  show "sankey_joined [[''name'' \<mapsto> ''Jane Doe'', ''country'' \<mapsto> ''X'']]
     [[''name'' \<mapsto> ''Doe Jane'', ''discipline'' \<mapsto> ''Fencing'', ''medal_type'' \<mapsto> ''Gold Medal''],
      [''name'' \<mapsto> ''No Match'', ''discipline'' \<mapsto> ''Judo'', ''medal_type'' \<mapsto> ''Gold Medal'']] =
     [\<lparr>country = ''X'', discipline = ''Fencing'', medal = ''Gold Medal''\<rparr>]"
    by (simp add: join_eval)
qed (rule nameToCountry_last_wins, rule sankey_joined_rows)

theorem sankey_join_inner_witness:
  "nameToCountry [[''name'' \<mapsto> ''Jane Doe'', ''country'' \<mapsto> ''X'']] ''doe jane'' = Some ''X'' \<and>
   sankey_joined [[''name'' \<mapsto> ''Jane Doe'', ''country'' \<mapsto> ''X'']]
     [[''name'' \<mapsto> ''Doe Jane'', ''discipline'' \<mapsto> ''Fencing'', ''medal_type'' \<mapsto> ''Silver Medal''],
      [''name'' \<mapsto> ''Doe Jane'', ''discipline'' \<mapsto> ''Fencing'', ''medal_type'' \<mapsto> []],
      [''name'' \<mapsto> ''No Match'', ''discipline'' \<mapsto> ''Judo'', ''medal_type'' \<mapsto> ''Gold Medal'']] =
     [\<lparr>country = ''X'', discipline = ''Fencing'', medal = ''Silver Medal''\<rparr>]"
proof -
  have idx: "nameToCountry [[''name'' \<mapsto> ''Jane Doe'', ''country'' \<mapsto> ''X'']] ''doe jane'' = Some ''X''"
    using sankey_join_inner [of "[[''name'' \<mapsto> ''Jane Doe'', ''country'' \<mapsto> ''X'']]" "''doe jane''" "[]",
        THEN conjunct1]
    by (simp add: truthy_def normalizeName_examples)
  have "nameToCountry [[''name'' \<mapsto> ''Jane Doe'', ''country'' \<mapsto> ''X'']] ''no match'' = None"
    by (simp add: nameToCountry_def truthy_def normalizeName_examples)
  with idx show ?thesis
    using sankey_join_inner [of "[[''name'' \<mapsto> ''Jane Doe'', ''country'' \<mapsto> ''X'']]" "k"
        "[[''name'' \<mapsto> ''Doe Jane'', ''discipline'' \<mapsto> ''Fencing'', ''medal_type'' \<mapsto> ''Silver Medal''],
      [''name'' \<mapsto> ''Doe Jane'', ''discipline'' \<mapsto> ''Fencing'', ''medal_type'' \<mapsto> []],
      [''name'' \<mapsto> ''No Match'', ''discipline'' \<mapsto> ''Judo'', ''medal_type'' \<mapsto> ''Gold Medal'']]",
        THEN conjunct2, THEN conjunct1]
    by (simp add: truthy_def normalizeName_examples)
qed

section \<open>The country aliaser: properties\<close>

lemmas aliaser_eval =
  normalizeCountry_def alias_get_def truthy_def COUNTRY_ALIASES_def object_prototype_names_def

lemma alias_values_nonempty: "map_of COUNTRY_ALIASES raw = Some v \<Longrightarrow> v \<noteq> []"
  by (auto simp: COUNTRY_ALIASES_def split: if_splits)

lemma alias_keys_not_inherited:
  "map_of COUNTRY_ALIASES raw = Some v \<Longrightarrow> raw \<notin> set object_prototype_names"
  by (auto simp: COUNTRY_ALIASES_def object_prototype_names_def split: if_splits)

lemma normalizeCountry_cases:
  "normalizeCountry primary long =
     (let raw = (if truthy long then long else primary) in
      if \<not> truthy raw then Null
      else case map_of COUNTRY_ALIASES (the raw) of
             Some canonical \<Rightarrow> Str canonical
           | None \<Rightarrow> if the raw \<in> set object_prototype_names then Inherited (the raw)
                     else Str (the raw))"
  by (simp add: normalizeCountry_def alias_get_def Let_def split: option.splits)

lemma normalizeCountry_inherited_member:
  "normalizeCountry (Some ''constructor'') None = Inherited ''constructor''"
  by (simp add: aliaser_eval)

text \<open>
  Claim C5, as stated, where the long label is the empty string: the claim prefers the long
  label whenever both are given and would answer with the empty label; the code falls through
  to the primary label, and answers \<open>null\<close> when both labels are empty.
\<close>

theorem normalizeCountry_prefers_long_counterexample:
  "normalizeCountry (Some ''USA'') (Some []) = Str ''United States of America'' \<and>
   canonicalize_as_stated (Some ''USA'') (Some []) = Str [] \<and>
   normalizeCountry (Some []) (Some []) = Null \<and>
   canonicalize_as_stated (Some []) (Some []) = Str []"
  by (simp add: aliaser_eval canonicalize_as_stated_def)

text \<open>
  Claim C5, amended. \<open>normalizeCountry\<close> takes the long label when it is a non-empty
  string and the primary label otherwise; it returns \<open>null\<close> when the label it takes is
  absent or empty; it returns the canonical name when the label is, character for character,
  a key of the alias table; and it returns the label unchanged when the label is neither a
  key of the table nor the name of a member inherited from \<open>Object.prototype\<close>. So
  (undefined, undefined) gives \<open>null\<close>, "USA" gives "United States of America",
  "Wakanda" gives "Wakanda", and "usa" and "USA " are not keys.
\<close>

theorem normalizeCountry_aliases:
  "(\<not> truthy long \<and> \<not> truthy primary \<longrightarrow> normalizeCountry primary long = Null) \<and>
   (truthy long \<longrightarrow> normalizeCountry primary long = normalizeCountry long None) \<and>
   (\<not> truthy long \<longrightarrow> normalizeCountry primary long = normalizeCountry primary None) \<and>
   (raw \<noteq> [] \<and> map_of COUNTRY_ALIASES raw = Some canonical \<longrightarrow>
      normalizeCountry (Some raw) None = Str canonical) \<and>
   (raw \<noteq> [] \<and> map_of COUNTRY_ALIASES raw = None \<and> raw \<notin> set object_prototype_names \<longrightarrow>
      normalizeCountry (Some raw) None = Str raw) \<and>
   normalizeCountry None None = Null \<and>
   normalizeCountry (Some ''USA'') None = Str ''United States of America'' \<and>
   normalizeCountry (Some ''Wakanda'') None = Str ''Wakanda'' \<and>
   normalizeCountry (Some ''usa'') None = Str ''usa'' \<and>
   normalizeCountry (Some ''USA '') None = Str ''USA ''"
proof (intro conjI impI)
  show "normalizeCountry None None = Null" by (simp add: aliaser_eval)
  show "normalizeCountry (Some ''USA'') None = Str ''United States of America''"
    by (simp add: aliaser_eval)
  show "normalizeCountry (Some ''Wakanda'') None = Str ''Wakanda''" by (simp add: aliaser_eval)
  show "normalizeCountry (Some ''usa'') None = Str ''usa''" by (simp add: aliaser_eval)
  show "normalizeCountry (Some ''USA '') None = Str ''USA ''" by (simp add: aliaser_eval)
qed (auto simp: normalizeCountry_cases truthy_def Let_def split: option.splits)

theorem normalizeCountry_aliases_witness:
  "truthy (Some ''Korea'') \<and> \<not> truthy (Some []) \<and> \<not> truthy None \<and>
   normalizeCountry (Some []) None = Null \<and>
   normalizeCountry (Some ''KOR'') (Some ''Korea'') = Str ''South Korea'' \<and>
   normalizeCountry (Some ''Korea'') (Some []) = Str ''South Korea'' \<and>
   map_of COUNTRY_ALIASES ''Korea'' = Some ''South Korea'' \<and>
   map_of COUNTRY_ALIASES ''Atlantis'' = None \<and> ''Atlantis'' \<notin> set object_prototype_names \<and>
   normalizeCountry (Some ''Atlantis'') None = Str ''Atlantis''"
proof -
  have h: "truthy (Some ''Korea'')" "\<not> truthy (Some [])" "\<not> truthy None"
    "map_of COUNTRY_ALIASES ''Korea'' = Some ''South Korea''"
    "map_of COUNTRY_ALIASES ''Atlantis'' = None" "''Atlantis'' \<notin> set object_prototype_names"
    by (simp_all add: truthy_def COUNTRY_ALIASES_def object_prototype_names_def)
  have k: "normalizeCountry (Some ''Korea'') None = Str ''South Korea''"
    using normalizeCountry_aliases [of long primary "''Korea''" "''South Korea''"] h by simp
  have a: "normalizeCountry (Some []) None = Null"
    using normalizeCountry_aliases [of None "Some []" raw canonical] h by simp
  have b: "normalizeCountry (Some ''KOR'') (Some ''Korea'') = Str ''South Korea''"
    using normalizeCountry_aliases [of "Some ''Korea''" "Some ''KOR''" raw canonical] h k by simp
  have c: "normalizeCountry (Some ''Korea'') (Some []) = Str ''South Korea''"
    using normalizeCountry_aliases [of "Some []" "Some ''Korea''" raw canonical] h k by simp
  have d: "normalizeCountry (Some ''Atlantis'') None = Str ''Atlantis''"
    using normalizeCountry_aliases [of long primary "''Atlantis''" canonical] h by simp
  from h a b c d show ?thesis by simp
qed

text \<open>
  Claim C9. An empty long label is treated as absent: the result with the long label
  \<open>""\<close> is the result with no long label, computed from the primary label (its
  canonical name when it is a key of the alias table, the label itself when it is neither a
  key nor the name of a member inherited from \<open>Object.prototype\<close>); and when both
  labels are empty strings the result is \<open>null\<close>, not the empty string.
\<close>

theorem normalizeCountry_empty_long:
  "normalizeCountry primary (Some []) = normalizeCountry primary None \<and>
   (label \<noteq> [] \<and> map_of COUNTRY_ALIASES label = Some canonical \<longrightarrow>
      normalizeCountry (Some label) (Some []) = Str canonical) \<and>
   (label \<noteq> [] \<and> map_of COUNTRY_ALIASES label = None \<and> label \<notin> set object_prototype_names \<longrightarrow>
      normalizeCountry (Some label) (Some []) = Str label) \<and>
   normalizeCountry (Some []) (Some []) = Null"
  by (auto simp: normalizeCountry_cases truthy_def Let_def split: option.splits)

theorem normalizeCountry_empty_long_witness:
  "''Great Britain'' \<noteq> [] \<and> map_of COUNTRY_ALIASES ''Great Britain'' = Some ''United Kingdom'' \<and>
   normalizeCountry (Some ''Great Britain'') (Some []) = Str ''United Kingdom'' \<and>
   ''France'' \<noteq> [] \<and> map_of COUNTRY_ALIASES ''France'' = None \<and>
   ''France'' \<notin> set object_prototype_names \<and>
   normalizeCountry (Some ''France'') (Some []) = Str ''France''"
proof -
  have h: "map_of COUNTRY_ALIASES ''Great Britain'' = Some ''United Kingdom''"
    "map_of COUNTRY_ALIASES ''France'' = None" "''France'' \<notin> set object_prototype_names"
    by (simp_all add: COUNTRY_ALIASES_def object_prototype_names_def)
  have a: "normalizeCountry (Some ''Great Britain'') (Some []) = Str ''United Kingdom''"
    using normalizeCountry_empty_long [of primary "''Great Britain''" "''United Kingdom''"] h by simp
  have b: "normalizeCountry (Some ''France'') (Some []) = Str ''France''"
    using normalizeCountry_empty_long [of primary "''France''" canonical] h by simp
  from h a b show ?thesis by simp
qed

section \<open>The choropleth pipeline: properties\<close>

lemma normalizeCountry_not_empty_Str: "normalizeCountry primary long \<noteq> Str []"
  using alias_values_nonempty
  by (auto simp: normalizeCountry_cases truthy_def Let_def split: option.splits if_splits)

lemma js_truthy_normalizeCountry:
  "js_truthy (normalizeCountry primary long) \<longleftrightarrow> normalizeCountry primary long \<noteq> Null"
  using normalizeCountry_not_empty_Str [of primary long]
  by (cases "normalizeCountry primary long") (auto simp: js_truthy_def)

lemma count_athlete_apply:
  "count_athlete d m c =
     (if c \<noteq> Null \<and> normalizeCountry (d ''country'') (d ''country_long'') = c
      then Some ((case m c of None \<Rightarrow> 0 | Some k \<Rightarrow> k) + 1) else m c)"
  by (auto simp: count_athlete_def Let_def js_truthy_normalizeCountry)

lemma fold_count_athlete:
  "fold count_athlete data m c =
     (let n = length (filter (\<lambda>d. normalizeCountry (d ''country'') (d ''country_long'') = c) data)
      in if c = Null \<or> n = 0 then m c
         else Some ((case m c of None \<Rightarrow> 0 | Some k \<Rightarrow> k) + n))"
proof (induction data arbitrary: m)
  case Nil
  show ?case by simp
next
  case (Cons d data)
  define n where
    "n = length (filter (\<lambda>d. normalizeCountry (d ''country'') (d ''country_long'') = c) data)"
  have ih: "fold count_athlete data (count_athlete d m) c =
      (if c = Null \<or> n = 0 then count_athlete d m c
       else Some ((case count_athlete d m c of None \<Rightarrow> 0 | Some k \<Rightarrow> k) + n))"
    using Cons.IH [of "count_athlete d m"] by (simp add: Let_def n_def)
  have step: "count_athlete d m c =
     (if c \<noteq> Null \<and> normalizeCountry (d ''country'') (d ''country_long'') = c
      then Some ((case m c of None \<Rightarrow> 0 | Some k \<Rightarrow> k) + 1) else m c)"
    by (rule count_athlete_apply)
  have "fold count_athlete (d # data) m c = fold count_athlete data (count_athlete d m) c"
    by simp
  then show ?case
    unfolding ih step Let_def n_def [symmetric]
    by (cases "normalizeCountry (d ''country'') (d ''country_long'') = c")
       (simp_all add: n_def)
qed

text \<open>
  Claim C8. For every athletes table, the map that \<open>loadAthletes\<close> builds holds the
  key \<open>c\<close> with the value \<open>n\<close> if and only if \<open>c\<close> is not \<open>null\<close>, \<open>n\<close>
  is at least 1 and exactly \<open>n\<close> rows canonicalize to \<open>c\<close>. Rows that canonicalize to
  \<open>null\<close> are skipped, and nothing is narrowed: every result of at least one row is a key.
\<close>

theorem loadAthletes_counts:
  "loadAthletes data c = Some n \<longleftrightarrow>
     c \<noteq> Null \<and> 1 \<le> n \<and>
     n = length (filter (\<lambda>d. normalizeCountry (d ''country'') (d ''country_long'') = c) data)"
proof (cases "filter (\<lambda>d. normalizeCountry (d ''country'') (d ''country_long'') = c) data = []")
  case True
  then show ?thesis by (auto simp: loadAthletes_def fold_count_athlete Let_def)
next
  case False
  then have "1 \<le> length (filter (\<lambda>d. normalizeCountry (d ''country'') (d ''country_long'') = c) data)"
    by (simp add: Suc_le_eq)
  with False show ?thesis by (auto simp: loadAthletes_def fold_count_athlete Let_def)
qed

theorem loadAthletes_counts_witness:
  "loadAthletes [[''country'' \<mapsto> ''USA'', ''country_long'' \<mapsto> ''United States''],
                 [''country'' \<mapsto> ''France'', ''country_long'' \<mapsto> []],
                 [''country'' \<mapsto> [], ''country_long'' \<mapsto> []],
                 [''country'' \<mapsto> ''USA'']] (Str ''United States of America'') = Some 2 \<and>
   loadAthletes [[''country'' \<mapsto> ''USA'', ''country_long'' \<mapsto> ''United States''],
                 [''country'' \<mapsto> ''France'', ''country_long'' \<mapsto> []],
                 [''country'' \<mapsto> [], ''country_long'' \<mapsto> []],
                 [''country'' \<mapsto> ''USA'']] Null = None"
proof -
  let ?data = "[[''country'' \<mapsto> ''USA'', ''country_long'' \<mapsto> ''United States''],
                 [''country'' \<mapsto> ''France'', ''country_long'' \<mapsto> []],
                 [''country'' \<mapsto> [], ''country_long'' \<mapsto> []],
                 [''country'' \<mapsto> ''USA'']] :: row list"
  have "loadAthletes ?data (Str ''United States of America'') = Some 2"
    using loadAthletes_counts [of ?data "Str ''United States of America''" 2]
    by (simp add: aliaser_eval)
  moreover have "loadAthletes ?data Null \<noteq> Some k" for k
    using loadAthletes_counts [of ?data Null k] by simp
  then have "loadAthletes ?data Null = None"
    using not_Some_eq by blast
  ultimately show ?thesis by simp
qed

section \<open>Totality of the chain\<close>

lemma normalizeName_checked_truthy:
  "truthy name \<Longrightarrow> normalizeName_checked name reversed = Inr (normalizeName (the name) reversed)"
  by (cases name) (simp_all add: normalizeName_checked_def truthy_def)

lemma nameToCountry_checked_fold:
  "nameToCountry_checked ms m =
     Inr (fold (\<lambda>d m.
        if \<not> truthy (d ''name'') \<or> \<not> truthy (d ''country'') then m
        else m(normalizeName (the (d ''name'')) True \<mapsto> the (d ''country''))) ms m)"
  by (induction ms arbitrary: m) (simp_all add: normalizeName_checked_truthy)

lemma sankey_join_row_checked_eq:
  "sankey_join_row_checked idx d = Inr (sankey_join_row idx d)"
  by (simp add: sankey_join_row_checked_def sankey_join_row_def normalizeName_checked_truthy Let_def)

lemma heatmap_join_row_checked_eq:
  "heatmap_join_row_checked idx d = Inr (heatmap_join_row idx d)"
  by (simp add: heatmap_join_row_checked_def heatmap_join_row_def normalizeName_checked_truthy Let_def)

lemma map_checked_Inr: "(\<And>x. f x = Inr (g x)) \<Longrightarrow> map_checked f xs = Inr (map g xs)"
  by (induction xs) simp_all

lemma read_all_filtered: "read_all (filter (\<lambda>d. d \<noteq> None) xs) = Inr (map the (filter (\<lambda>d. d \<noteq> None) xs))"
proof (induction xs)
  case Nil
  show ?case by simp
next
  case (Cons x xs)
  then show ?case by (cases x) simp_all
qed

lemma loadData_checked_eq: "loadData_checked ms md = Inr (loadData ms md)"
proof -
  have "map_checked (sankey_join_row_checked (nameToCountry ms)) md =
        Inr (map (sankey_join_row (nameToCountry ms)) md)"
    by (rule map_checked_Inr) (rule sankey_join_row_checked_eq)
  then show ?thesis
    unfolding loadData_checked_def loadData_def sankey_joined_def
    by (simp only: nameToCountry_checked_fold nameToCountry_def [symmetric] sum.case
          read_all_filtered Let_def)
qed

lemma loadHeatmapData_checked_eq: "loadHeatmapData_checked ms md = Inr (loadHeatmapData ms md)"
proof -
  have "map_checked (heatmap_join_row_checked (nameToCountry ms)) md =
        Inr (map (heatmap_join_row (nameToCountry ms)) md)"
    by (rule map_checked_Inr) (rule heatmap_join_row_checked_eq)
  then show ?thesis
    unfolding loadHeatmapData_checked_def loadHeatmapData_def heatmap_joined_def
    by (simp only: nameToCountry_checked_fold nameToCountry_def [symmetric] sum.case read_all_filtered)
qed

lemma topK_empty: "topK [] k = []"
  by (simp add: topK_def array_sort_def)

lemma rollups_empty: "rollups reduce f [] = []" "rollups2 reduce f g [] = []"
  by (simp_all add: rollups_eval)

lemma sankey_empty:
  "sankey_filtered [] = []" "linkMap [] = []" "nodeNames [] = []"
  by (simp_all add: sankey_filtered_def linkMap_def links_of_def countryToDiscipline_def
        disciplineToMedal_def nodeNames_def rollups_eval)

lemma heatmap_empty: "heatmap_cells [] = []" "heatmap_filtered [] = []"
  by (simp_all add: heatmap_cells_def heatmap_filtered_def rollups_eval)

lemma joined_no_medallists: "sankey_joined [] md = []" "heatmap_joined [] md = []"
  by (auto simp: sankey_joined_rows heatmap_joined_rows nameToCountry_def)

lemma joined_no_medals: "sankey_joined ms [] = []" "heatmap_joined ms [] = []"
  by (simp_all add: sankey_joined_def heatmap_joined_def)

lemma checked_sites_can_fail:
  "normalizeName_checked None True = Inl TypeError \<and>
   read_all [Some (1::nat), None] = Inl TypeError \<and>
   map_checked (\<lambda>d. normalizeName_checked (d ''name'') False)
     [[''name'' \<mapsto> ''Doe Jane''], Map.empty] = Inl TypeError"
  by (simp add: normalizeName_checked_def)

lemmas sankey_eval =
  loadData_def sankey_filtered_def sankey_topCountries_def sankey_topDisciplines_def
  linkMap_def links_of_def countryToDiscipline_def disciplineToMedal_def nodeNames_def
  topK_def array_sort_def by_count_desc_def

lemmas heatmap_eval =
  loadHeatmapData_def heatmap_filtered_def heatmap_topCountries_def heatmap_topDisciplines_def
  heatmap_cells_def d3_sum_def topK_def array_sort_def by_count_desc_def

text \<open>
  Claim C7. For all medallist and medals tables, neither load throws: the checked load
  returns a result, the one the unchecked model computes, because both guards stand before
  the call of \<open>normalizeName\<close> and the \<open>null\<close> elements are filtered out before any
  key function reads them (\<open>checked_sites_can_fail\<close> shows that the sites do fail when
  they are reached unguarded). On empty input every stage returns an empty result: the index
  of no medallists is the empty map; the join of no medals, or against no medallists, is
  empty; aggregation, ranking, filtering and the link and cell lists of no records are empty;
  and both loads return empty results when either table is empty.
\<close>

theorem chain_total:
  "loadData_checked medallists medals = Inr (loadData medallists medals) \<and>
   loadHeatmapData_checked medallists medals = Inr (loadHeatmapData medallists medals) \<and>
   nameToCountry [] = Map.empty \<and>
   sankey_joined medallists [] = [] \<and> sankey_joined [] medals = [] \<and>
   heatmap_joined medallists [] = [] \<and> heatmap_joined [] medals = [] \<and>
   rollups reduce dim1Fn [] = [] \<and> rollups2 reduce dim1Fn dim2Fn [] = [] \<and>
   topK [] k = [] \<and>
   sankey_filtered [] = [] \<and> linkMap [] = [] \<and>
   heatmap_cells [] = [] \<and> heatmap_filtered [] = [] \<and>
   loadData medallists [] = ([], []) \<and> loadData [] medals = ([], []) \<and>
   loadHeatmapData medallists [] = [] \<and> loadHeatmapData [] medals = []"
proof (intro conjI)
  show "loadData medallists [] = ([], [])" "loadData [] medals = ([], [])"
    by (simp_all add: loadData_def joined_no_medals joined_no_medallists sankey_empty)
  show "loadHeatmapData medallists [] = []" "loadHeatmapData [] medals = []"
    by (simp_all add: loadHeatmapData_def joined_no_medals joined_no_medallists heatmap_empty)
  show "nameToCountry [] = Map.empty" by (simp add: nameToCountry_def)
qed (simp_all only: loadData_checked_eq loadHeatmapData_checked_eq topK_empty rollups_empty
       sankey_empty heatmap_empty joined_no_medallists joined_no_medals)

theorem chain_total_witness:
  "loadData_checked [[''name'' \<mapsto> ''Jane Doe'', ''country'' \<mapsto> ''X''], [''country'' \<mapsto> ''Y'']]
     [[''name'' \<mapsto> ''Doe Jane'', ''discipline'' \<mapsto> ''Fencing'', ''medal_type'' \<mapsto> ''Gold Medal''],
      [''discipline'' \<mapsto> ''Judo'', ''medal_type'' \<mapsto> ''Gold Medal'']] =
     Inr ([''X'', ''Fencing'', ''Gold Medal''],
          [\<lparr>source = ''X'', target = ''Fencing'', link_value = 1\<rparr>,
           \<lparr>source = ''Fencing'', target = ''Gold Medal'', link_value = 1\<rparr>]) \<and>
   loadHeatmapData_checked [[''name'' \<mapsto> ''Jane Doe'', ''country'' \<mapsto> ''X''], [''country'' \<mapsto> ''Y'']]
     [[''name'' \<mapsto> ''Doe Jane'', ''discipline'' \<mapsto> ''Fencing'', ''medal_type'' \<mapsto> ''Gold Medal''],
      [''discipline'' \<mapsto> ''Judo'', ''medal_type'' \<mapsto> ''Gold Medal'']] =
     Inr [\<lparr>country = ''X'', discipline = ''Fencing'', cell_value = 1\<rparr>]"
proof -
  let ?ms = "[[''name'' \<mapsto> ''Jane Doe'', ''country'' \<mapsto> ''X''], [''country'' \<mapsto> ''Y'']] :: row list"
  let ?md = "[[''name'' \<mapsto> ''Doe Jane'', ''discipline'' \<mapsto> ''Fencing'', ''medal_type'' \<mapsto> ''Gold Medal''],
      [''discipline'' \<mapsto> ''Judo'', ''medal_type'' \<mapsto> ''Gold Medal'']] :: row list"
  have s: "sankey_joined ?ms ?md = [\<lparr>country = ''X'', discipline = ''Fencing'', medal = ''Gold Medal''\<rparr>]"
    by (simp add: join_eval)
  have h: "heatmap_joined ?ms ?md = [\<lparr>country = ''X'', discipline = ''Fencing''\<rparr>]"
    by (simp add: join_eval)
  have "loadData ?ms ?md = ([''X'', ''Fencing'', ''Gold Medal''],
          [\<lparr>source = ''X'', target = ''Fencing'', link_value = 1\<rparr>,
           \<lparr>source = ''Fencing'', target = ''Gold Medal'', link_value = 1\<rparr>])"
    by (simp add: sankey_eval s rollups_eval)
  moreover have "loadHeatmapData ?ms ?md = [\<lparr>country = ''X'', discipline = ''Fencing'', cell_value = 1\<rparr>]"
    by (simp add: heatmap_eval h rollups_eval)
  ultimately show ?thesis
    using chain_total [of ?ms ?md, THEN conjunct1]
      chain_total [of ?ms ?md, THEN conjunct2, THEN conjunct1]
    by simp
qed

section \<open>Filtering cells or filtering records\<close>

lemma cell_order_may_differ:
  "map (\<lambda>c. (country c, discipline c, cell_value c))
     (filter (\<lambda>d. country d \<in> set [''X'', ''Y''] \<and> discipline d \<in> set [''A''])
        (heatmap_cells [\<lparr>country = ''X'', discipline = ''B''\<rparr>, \<lparr>country = ''Y'', discipline = ''A''\<rparr>,
                        \<lparr>country = ''X'', discipline = ''A''\<rparr>])) =
     [(''X'', ''A'', 1), (''Y'', ''A'', 1)] \<and>
   map (\<lambda>l. (source l, target l, link_value l))
     (links_of (countryToDiscipline
        (filter (\<lambda>d. country d \<in> set [''X'', ''Y''] \<and> discipline d \<in> set [''A''])
           [\<lparr>country = ''X'', discipline = ''B'', medal = ''Gold''\<rparr>,
            \<lparr>country = ''Y'', discipline = ''A'', medal = ''Gold''\<rparr>,
            \<lparr>country = ''X'', discipline = ''A'', medal = ''Gold''\<rparr>]))) =
     [(''Y'', ''A'', 1), (''X'', ''A'', 1)]"
  by (simp add: heatmap_cells_def links_of_def countryToDiscipline_def rollups_eval)

text \<open>
  Claim C10. For fixed sets of top countries and top disciplines and one sequence of
  joined records, aggregating all records by country and discipline and then keeping the
  cells whose country and discipline are both in the sets (the heat map's order) gives the
  same cells with the same counts as keeping the records whose country and discipline are
  both in the sets and then aggregating (the Sankey diagram's order): the two lists hold the
  same (country, discipline, count) triples, each once. The order of the triples in the two
  lists can differ, as \<open>cell_order_may_differ\<close> shows.
\<close>

theorem filter_aggregate_commute:
  fixes js :: "joined_medal list"
  shows
  "mset (map (\<lambda>c. (country c, discipline c, cell_value c))
          (filter (\<lambda>d. country d \<in> set topCountries \<and> discipline d \<in> set topDisciplines)
             (heatmap_cells (map (\<lambda>d. \<lparr>country = country d, discipline = discipline d\<rparr>) js)))) =
   mset (map (\<lambda>l. (source l, target l, link_value l))
          (links_of (countryToDiscipline
             (filter (\<lambda>d. country d \<in> set topCountries \<and> discipline d \<in> set topDisciplines) js))))"
proof -
  let ?P = "\<lambda>d. country d \<in> set topCountries \<and> discipline d \<in> set topDisciplines"
  let ?proj = "\<lambda>d::joined_medal. \<lparr>country = country d, discipline = discipline d\<rparr>"
  let ?T = "triples (rollups2 length country discipline js)"
  have T: "triples (rollups2 length country discipline (map ?proj js)) = ?T"
    by (simp add: triples_rollups2_map o_def)
  have "map (\<lambda>c. (country c, discipline c, cell_value c)) (filter ?P (heatmap_cells (map ?proj js))) =
        filter (\<lambda>(k, j, n). k \<in> set topCountries \<and> j \<in> set topDisciplines) ?T"
    by (simp add: heatmap_cells_triples T filter_map o_def split_def)
  moreover have "map (\<lambda>l. (source l, target l, link_value l))
          (links_of (countryToDiscipline (filter ?P js))) =
        triples (rollups2 length country discipline (filter ?P js))"
    by (simp add: links_of_triples countryToDiscipline_def o_def split_def)
  ultimately show ?thesis
    using filter_triples_rollups2 [of "\<lambda>k j. k \<in> set topCountries \<and> j \<in> set topDisciplines"
        country discipline js]
    by simp
qed


end
